theory Spec2Isabelle
  imports Complex_Main "HOL-Library.Char_ord" "HOL-Library.List_Lexorder"
begin

section \<open>Dorothea: the event-selection city of invisible\_cities\<close>

text \<open>
  The development embeds \<^verbatim>\<open>invisible_cities/cities/dorothea.py\<close>: the constructor
  \<^verbatim>\<open>Dorothea.__init__\<close>, the methods \<^verbatim>\<open>run\<close>, \<^verbatim>\<open>_main_loop\<close>, \<^verbatim>\<open>_event_loop\<close> and the
  driver \<^verbatim>\<open>DOROTHEA\<close>. Python numbers that are floats in the program (energies, times,
  the drift velocity, the printed ratios) are idealised as \<^typ>\<open>real\<close>; counters and event
  numbers are Python's unbounded integers, \<^typ>\<open>int\<close>. Exceptions are values of a sum type,
  standard output and the output table are explicit state.
\<close>

subsection \<open>Exceptions, printed messages, the world\<close>

text \<open>
  The exceptions the program distinguishes: \<^verbatim>\<open>_main_loop\<close> catches \<^verbatim>\<open>ValueError\<close> and
  \<^verbatim>\<open>tb.exceptions.NoSuchNodeError\<close>; the divisions of \<^verbatim>\<open>run\<close>, \<^verbatim>\<open>_event_loop\<close> and
  \<^verbatim>\<open>DOROTHEA\<close> raise \<^verbatim>\<open>ZeroDivisionError\<close>; every other exception a collaborator may raise
  is \<open>OtherException\<close>.
\<close>

datatype exn = ValueError | NoSuchNodeError | ZeroDivisionError | OtherException

text \<open>One constructor per \<^verbatim>\<open>print\<close> call of the file, with the values it formats.\<close>

datatype msg =
    DisplayIOInfo int
  | Opening string
  | EmptyFileSkipping
  | MaxEventsReached
  | OK
  | EvtsAnalyzed int
  | RunSummary int int real
  | DriverSummary int real real

text \<open>
  The state outside the program: the rows written to the output table through
  \<^verbatim>\<open>write_kr\<close>, in order, and the lines printed so far.
\<close>

record 'e world =
  sink :: "'e list"
  stdout :: "msg list"

definition print_msg :: "msg \<Rightarrow> 'e world \<Rightarrow> 'e world" where
  "print_msg m w = w\<lparr>stdout := stdout w @ [m]\<rparr>"

subsection \<open>Peak maps\<close>

text \<open>
  One event's peaks of one class are a dictionary from peak id to peak; the dictionary is
  an association list, so that its length is Python's \<^verbatim>\<open>len\<close> and \<^verbatim>\<open>{}\<close> is \<open>[]\<close>.
  The fields of a peak are the attributes the specification refers to: its
  (time, amplitude) samples, its reference time and its start time. The sensor-charge map
  of an event gives, for an S2 peak id, the integrated charge of each sensor.
\<close>

type_synonym pid = int

record peak =
  samples :: "(real \<times> real) list"
  time :: real
  start_time :: real

type_synonym peak_map = "(pid \<times> peak) list"

type_synonym charges = "(nat \<times> real) list"

type_synonym si_map = "(pid \<times> charges) list"

type_synonym pmaps = "(int \<rightharpoonup> peak_map) \<times> (int \<rightharpoonup> peak_map) \<times> (int \<rightharpoonup> si_map)"

subsection \<open>The city object and its collaborators\<close>

text \<open>
  \<^verbatim>\<open>self\<close>: the attributes \<^verbatim>\<open>City.__init__\<close> stores and the two inherited methods the
  loops call, \<^verbatim>\<open>self.select_event\<close> (of \<^verbatim>\<open>S12SelectorCity\<close>) and
  \<^verbatim>\<open>self.max_events_reached\<close> (of \<^verbatim>\<open>City\<close>). Both base classes live in
  \<^verbatim>\<open>base_cities.py\<close>, which is not among the sources, so the loops are modelled for any
  pair of methods.
\<close>

record 'e city =
  input_files :: "string list"
  output_file :: string
  compression :: string
  nprint :: int
  select_event :: "int \<Rightarrow> int \<Rightarrow> peak_map \<Rightarrow> peak_map \<Rightarrow> si_map \<Rightarrow> 'e option"
  max_events_reached :: "int \<Rightarrow> int \<Rightarrow> bool"

text \<open>
  The imported functions that read files: what each returns, or the exception it raises,
  for a file name or a pattern.
\<close>

record collaborators =
  load_pmaps :: "string \<Rightarrow> exn + pmaps"
  get_event_numbers_and_timestamps_from_file_name :: "string \<Rightarrow> exn + (int list \<times> int list)"
  glob :: "string \<Rightarrow> string list"

subsection \<open>\<^verbatim>\<open>_event_loop\<close>\<close>

text \<open>\<^verbatim>\<open>d.get(k, {})\<close>.\<close>

definition dict_get :: "('k \<rightharpoonup> 'v list) \<Rightarrow> 'k \<Rightarrow> 'v list" where
  "dict_get d k = (case d k of None \<Rightarrow> [] | Some v \<Rightarrow> v)"

text \<open>
  One iteration of the \<^verbatim>\<open>for\<close> loop of \<^verbatim>\<open>_event_loop\<close> (lines 124 to 141). The result is
  the two counters, whether \<^verbatim>\<open>self.max_events_reached\<close> answered true (the \<^verbatim>\<open>break\<close>), and
  the world. \<^verbatim>\<open>nevt_in % self.nprint\<close> raises \<^verbatim>\<open>ZeroDivisionError\<close> when \<^verbatim>\<open>nprint\<close> is 0;
  for a non-zero divisor Python's \<^verbatim>\<open>%\<close> on integers is \<open>mod\<close> on \<^typ>\<open>int\<close>.
\<close>

definition event_body ::
  "'e city \<Rightarrow> int \<Rightarrow> ('e \<Rightarrow> 'e world \<Rightarrow> 'e world) \<Rightarrow>
   (int \<rightharpoonup> peak_map) \<Rightarrow> (int \<rightharpoonup> peak_map) \<Rightarrow> (int \<rightharpoonup> si_map) \<Rightarrow>
   int \<Rightarrow> int \<Rightarrow> int \<Rightarrow> int \<Rightarrow> 'e world \<Rightarrow> exn + (int \<times> int \<times> bool \<times> 'e world)"
where
  "event_body self nmax write_kr S1s S2s S2Sis evt_number evt_time nevt_in nevt_out w =
    (let nevt_in = nevt_in + 1;
         S1 = dict_get S1s evt_number;
         S2 = dict_get S2s evt_number;
         Si = dict_get S2Sis evt_number;
         evt = select_event self evt_number evt_time S1 S2 Si;
         nevt_out = (case evt of None \<Rightarrow> nevt_out | Some e \<Rightarrow> nevt_out + 1);
         w = (case evt of None \<Rightarrow> w | Some e \<Rightarrow> write_kr e w)
     in if nprint self = 0 then Inl ZeroDivisionError
        else
          let w = (if nevt_in mod nprint self = 0 then print_msg (EvtsAnalyzed nevt_in) w else w)
          in Inr (nevt_in, nevt_out, max_events_reached self nmax nevt_in, w))"

text \<open>The \<^verbatim>\<open>for\<close> loop over \<^verbatim>\<open>zip(event_numbers, timestamps)\<close>, with its \<^verbatim>\<open>break\<close>.\<close>

fun for_events ::
  "'e city \<Rightarrow> int \<Rightarrow> ('e \<Rightarrow> 'e world \<Rightarrow> 'e world) \<Rightarrow>
   (int \<rightharpoonup> peak_map) \<Rightarrow> (int \<rightharpoonup> peak_map) \<Rightarrow> (int \<rightharpoonup> si_map) \<Rightarrow>
   (int \<times> int) list \<Rightarrow> int \<Rightarrow> int \<Rightarrow> 'e world \<Rightarrow> exn + (int \<times> int \<times> bool \<times> 'e world)"
where
  "for_events self nmax write_kr S1s S2s S2Sis [] nevt_in nevt_out w =
     Inr (nevt_in, nevt_out, False, w)"
| "for_events self nmax write_kr S1s S2s S2Sis ((evt_number, evt_time) # rest) nevt_in nevt_out w =
     (case event_body self nmax write_kr S1s S2s S2Sis evt_number evt_time nevt_in nevt_out w of
        Inl e \<Rightarrow> Inl e
      | Inr (nevt_in', nevt_out', reached, w') \<Rightarrow>
          if reached then Inr (nevt_in', nevt_out', True, w')
          else for_events self nmax write_kr S1s S2s S2Sis rest nevt_in' nevt_out' w')"

definition event_loop ::
  "'e city \<Rightarrow> int list \<Rightarrow> int list \<Rightarrow> int \<Rightarrow> int \<Rightarrow> int \<Rightarrow> ('e \<Rightarrow> 'e world \<Rightarrow> 'e world) \<Rightarrow>
   (int \<rightharpoonup> peak_map) \<Rightarrow> (int \<rightharpoonup> peak_map) \<Rightarrow> (int \<rightharpoonup> si_map) \<Rightarrow>
   'e world \<Rightarrow> exn + (int \<times> int \<times> bool \<times> 'e world)"
where
  "event_loop self event_numbers timestamps nmax nevt_in nevt_out write_kr S1s S2s S2Sis w =
     for_events self nmax write_kr S1s S2s S2Sis (zip event_numbers timestamps) nevt_in nevt_out w"

subsection \<open>\<^verbatim>\<open>_main_loop\<close>\<close>

text \<open>
  The \<^verbatim>\<open>for\<close> loop over \<^verbatim>\<open>self.input_files\<close>. The \<^verbatim>\<open>try\<close> encloses the call of
  \<^verbatim>\<open>load_pmaps\<close> alone: of its exceptions, \<^verbatim>\<open>ValueError\<close> and \<^verbatim>\<open>NoSuchNodeError\<close> reach
  the \<^verbatim>\<open>continue\<close>, any other leaves the loop; so does every exception of the event index
  and of \<^verbatim>\<open>_event_loop\<close>.
\<close>

fun for_files ::
  "'e city \<Rightarrow> collaborators \<Rightarrow> ('e \<Rightarrow> 'e world \<Rightarrow> 'e world) \<Rightarrow> int \<Rightarrow>
   string list \<Rightarrow> int \<Rightarrow> int \<Rightarrow> 'e world \<Rightarrow> exn + (int \<times> int \<times> 'e world)"
where
  "for_files self io write_kr nmax [] nevt_in nevt_out w = Inr (nevt_in, nevt_out, w)"
| "for_files self io write_kr nmax (filename # rest) nevt_in nevt_out w =
     (let w = print_msg (Opening filename) w in
      case load_pmaps io filename of
        Inl e \<Rightarrow>
          if e = ValueError \<or> e = NoSuchNodeError
          then for_files self io write_kr nmax rest nevt_in nevt_out (print_msg EmptyFileSkipping w)
          else Inl e
      | Inr (S1s, S2s, S2Sis) \<Rightarrow>
          (case get_event_numbers_and_timestamps_from_file_name io filename of
             Inl e \<Rightarrow> Inl e
           | Inr (event_numbers, timestamps) \<Rightarrow>
               (case event_loop self event_numbers timestamps nmax nevt_in nevt_out write_kr
                       S1s S2s S2Sis w of
                  Inl e \<Rightarrow> Inl e
                | Inr (nevt_in', nevt_out', reached, w') \<Rightarrow>
                    if reached then Inr (nevt_in', nevt_out', print_msg MaxEventsReached w')
                    else for_files self io write_kr nmax rest nevt_in' nevt_out'
                           (print_msg OK w'))))"

definition main_loop ::
  "'e city \<Rightarrow> collaborators \<Rightarrow> ('e \<Rightarrow> 'e world \<Rightarrow> 'e world) \<Rightarrow> int \<Rightarrow> 'e world \<Rightarrow>
   exn + (int \<times> int \<times> 'e world)"
where
  "main_loop self io write_kr nmax w = for_files self io write_kr nmax (input_files self) 0 0 w"

subsection \<open>\<^verbatim>\<open>run\<close>\<close>

text \<open>
  Modelled from the spec: \<^verbatim>\<open>kr_writer\<close> of \<^verbatim>\<open>reco/dst_io.py\<close> is not among the sources.
  It is the output sink of the specification: it accepts one accepted event at a time and
  appends it to the table.
\<close>

definition kr_writer :: "'e \<Rightarrow> 'e world \<Rightarrow> 'e world" where
  "kr_writer evt w = w\<lparr>sink := sink w @ [evt]\<rparr>"

text \<open>
  \<^verbatim>\<open>run\<close>: \<^verbatim>\<open>display_IO_info\<close> prints, \<^verbatim>\<open>tb.open_file(..., "w")\<close> starts an empty table,
  the main loop runs, and the summary formats \<^verbatim>\<open>nevt_out / nevt_in\<close>. The quotient is
  Python 3's true division of two integers, which raises \<^verbatim>\<open>ZeroDivisionError\<close> for a zero
  divisor; the arguments of \<^verbatim>\<open>format\<close> are evaluated before anything is printed.
\<close>

definition run ::
  "'e city \<Rightarrow> collaborators \<Rightarrow> int \<Rightarrow> 'e world \<Rightarrow> exn + (int \<times> int \<times> 'e world)"
where
  "run self io nmax w =
    (let w = print_msg (DisplayIOInfo nmax) w;
         w = w\<lparr>sink := []\<rparr>;
         write_kr = kr_writer
     in case main_loop self io write_kr nmax w of
          Inl e \<Rightarrow> Inl e
        | Inr (nevt_in, nevt_out, w') \<Rightarrow>
            if nevt_in = 0 then Inl ZeroDivisionError
            else Inr (nevt_in, nevt_out,
                      print_msg (RunSummary nevt_in nevt_out
                                   (real_of_int nevt_out / real_of_int nevt_in)) w'))"

subsection \<open>The selector of \<^verbatim>\<open>S12SelectorCity\<close>\<close>

text \<open>An upper bound is a number or \<^verbatim>\<open>np.inf\<close>.\<close>

datatype 'a bound = Finite 'a | Infinity

fun le_bound :: "'a::linorder \<Rightarrow> 'a bound \<Rightarrow> bool" where
  "le_bound x (Finite b) = (x \<le> b)"
| "le_bound x Infinity = True"

text \<open>
  Modelled from the spec: \<^verbatim>\<open>S12SelectorCity\<close> (\<^verbatim>\<open>base_cities.py\<close>) is not among the
  sources. PeakCriteria is the bundle of acceptance bounds of one peak class: multiplicity
  range, energy range, time-width range, height range, the energy threshold used when
  integrating a peak, and, for S2 only, the sensor-count range.
\<close>

record criteria =
  Nmin :: int
  Nmax :: int
  Emin :: real
  Emax :: "real bound"
  Lmin :: real
  Lmax :: "real bound"
  Hmin :: real
  Hmax :: "real bound"
  Ethr :: real
  NSIPM :: "(int \<times> int bound) option"

text \<open>
  Modelled from the spec: the derived quantities of a peak (section 3). Energy is the sum
  of the amplitudes, a sample below the threshold contributing zero; width is the time
  span of the non-zero samples; height is the largest amplitude; the sensor count is the
  number of sensors with a non-zero integrated charge above the threshold. A peak with no
  sample has energy, width and height 0.
\<close>

definition energy :: "real \<Rightarrow> peak \<Rightarrow> real" where
  "energy thr p = sum_list (map (\<lambda>(t, a). if a < thr then 0 else a) (samples p))"

definition width :: "peak \<Rightarrow> real" where
  "width p =
     (let ts = map fst (filter (\<lambda>(t, a). a \<noteq> 0) (samples p))
      in if ts = [] then 0 else Max (set ts) - Min (set ts))"

definition height :: "peak \<Rightarrow> real" where
  "height p = (if samples p = [] then 0 else Max (set (map snd (samples p))))"

definition n_sensors :: "real \<Rightarrow> charges \<Rightarrow> int" where
  "n_sensors thr qs = int (length (filter (\<lambda>(s, q). q \<noteq> 0 \<and> thr < q) qs))"

text \<open>
  Modelled from the spec: the per-peak check of PeakFilter (section 4.1). The peak data
  are the peak and, for an S2 peak, its per-sensor charges. A peak is kept iff energy,
  width, height and (S2 only) sensor count each lie within their bounds.
\<close>

definition peak_passes :: "criteria \<Rightarrow> peak \<times> charges \<Rightarrow> bool" where
  "peak_passes c d =
     (Emin c \<le> energy (Ethr c) (fst d) \<and> le_bound (energy (Ethr c) (fst d)) (Emax c) \<and>
      Lmin c \<le> width (fst d) \<and> le_bound (width (fst d)) (Lmax c) \<and>
      Hmin c \<le> height (fst d) \<and> le_bound (height (fst d)) (Hmax c) \<and>
      (case NSIPM c of
         None \<Rightarrow> True
       | Some (lo, hi) \<Rightarrow>
           lo \<le> n_sensors (Ethr c) (snd d) \<and> le_bound (n_sensors (Ethr c) (snd d)) hi))"

text \<open>
  Modelled from the spec: \<^verbatim>\<open>filter_peaks(peak_map, criteria)\<close> (section 4.1). The
  multiplicity check is on the length of the peak map; when it fails no peak is evaluated
  and nothing passes. The passing ids are returned in ascending order, each with its peak
  data.
\<close>

definition filter_peaks ::
  "(pid \<times> peak \<times> charges) list \<Rightarrow> criteria \<Rightarrow> bool \<times> (pid \<times> peak \<times> charges) list"
where
  "filter_peaks peak_map c =
     (if Nmin c \<le> int (length peak_map) \<and> int (length peak_map) \<le> Nmax c
      then (True, sort_key fst (filter (\<lambda>e. peak_passes c (snd e)) peak_map))
      else (False, []))"

text \<open>
  Modelled from the spec: \<^verbatim>\<open>reduce(s1_passing, s2_passing, s2si_map, drift_v)\<close> of
  EventReducer (section 4.2), with the configured S2 cap. Exactly one S1 survivor is
  required; no S2 survivor rejects the event; the S2 survivors are capped to the
  \<open>S2_Nmax\<close> lowest ids; each kept S2 peak yields
  \<open>(S2_peak.start_time - S1_peak.time) * drift_v\<close>. The result is the chosen S1 id, the
  kept S2 ids and their drift values.
\<close>

definition reduce ::
  "(pid \<times> peak \<times> charges) list \<Rightarrow> (pid \<times> peak \<times> charges) list \<Rightarrow> si_map \<Rightarrow> real \<Rightarrow> int \<Rightarrow>
   (pid \<times> pid list \<times> real list) option"
where
  "reduce s1_passing s2_passing s2si_map drift_v S2_Nmax =
     (case s1_passing of
        [s1] \<Rightarrow>
          if s2_passing = [] then None
          else
            let kept = take (nat S2_Nmax) (sort_key fst s2_passing)
            in Some (fst s1, map fst kept,
                     map (\<lambda>s2. (start_time (fst (snd s2)) - time (fst (snd s1))) * drift_v) kept)
      | _ \<Rightarrow> None)"

text \<open>The accepted-event record of section 3.\<close>

record accepted_event =
  event :: int
  timestamp :: int
  S1_id :: pid
  S2_ids :: "pid list"
  drifts :: "real list"

text \<open>
  Modelled from the spec: \<^verbatim>\<open>select_event\<close> of EventSelector (section 4.3), the method
  \<^verbatim>\<open>S12SelectorCity.select_event\<close> that \<^verbatim>\<open>_event_loop\<close> calls. PeakFilter runs for S1 and
  for S2 (an S2 peak's charges are looked up in the event's sensor-charge map, a missing
  id having none); a failed multiplicity check rejects the event; otherwise EventReducer
  decides.
\<close>

definition S12SelectorCity_select_event ::
  "real \<Rightarrow> criteria \<Rightarrow> criteria \<Rightarrow> int \<Rightarrow> int \<Rightarrow> peak_map \<Rightarrow> peak_map \<Rightarrow> si_map \<Rightarrow>
   accepted_event option"
where
  "S12SelectorCity_select_event drift_v S1_criteria S2_criteria evt_number evt_time
     S1_map S2_map S2Si_map =
     (let s1 = filter_peaks (map (\<lambda>(i, p). (i, p, [])) S1_map) S1_criteria;
          s2 = filter_peaks (map (\<lambda>(i, p). (i, p, dict_get (map_of S2Si_map) i)) S2_map)
                 S2_criteria
      in if fst s1 \<and> fst s2
         then (case reduce (snd s1) (snd s2) S2Si_map drift_v (Nmax S2_criteria) of
                 None \<Rightarrow> None
               | Some (s1_id, s2_ids, ds) \<Rightarrow>
                   Some \<lparr>event = evt_number, timestamp = evt_time, S1_id = s1_id,
                         S2_ids = s2_ids, drifts = ds\<rparr>)
         else None)"

text \<open>
  Modelled from the spec: \<^verbatim>\<open>City.max_events_reached(nmax, nevt_in)\<close> (\<^verbatim>\<open>base_cities.py\<close>)
  is not among the sources. The global cap \<open>nmax\<close>, where \<open>nmax < 0\<close> means unbounded, is
  reached by \<open>nevt_in\<close>.
\<close>

definition City_max_events_reached :: "int \<Rightarrow> int \<Rightarrow> bool" where
  "City_max_events_reached nmax nevt_in = (0 \<le> nmax \<and> nmax \<le> nevt_in)"

subsection \<open>The constructor\<close>

text \<open>The keyword arguments of \<^verbatim>\<open>Dorothea.__init__\<close> for the two peak classes.\<close>

record S1_params =
  S1_Emin :: real
  S1_Emax :: "real bound"
  S1_Lmin :: real
  S1_Lmax :: "real bound"
  S1_Hmin :: real
  S1_Hmax :: "real bound"
  S1_Ethr :: real

record S2_params =
  S2_Nmax :: int
  S2_Emin :: real
  S2_Emax :: "real bound"
  S2_Lmin :: real
  S2_Lmax :: "real bound"
  S2_Hmin :: real
  S2_Hmax :: "real bound"
  S2_NSIPMmin :: int
  S2_NSIPMmax :: "int bound"
  S2_Ethr :: real

text \<open>Their default values (lines 31 to 48).\<close>

definition S1_defaults :: S1_params where
  "S1_defaults =
     \<lparr>S1_Emin = 0, S1_Emax = Infinity, S1_Lmin = 0, S1_Lmax = Infinity,
      S1_Hmin = 0, S1_Hmax = Infinity, S1_Ethr = 0\<rparr>"

definition S2_defaults :: S2_params where
  "S2_defaults =
     \<lparr>S2_Nmax = 1, S2_Emin = 0, S2_Emax = Infinity, S2_Lmin = 0, S2_Lmax = Infinity,
      S2_Hmin = 0, S2_Hmax = Infinity, S2_NSIPMmin = 1, S2_NSIPMmax = Infinity, S2_Ethr = 0\<rparr>"

text \<open>
  The criteria \<^verbatim>\<open>Dorothea.__init__\<close> hands to \<^verbatim>\<open>S12SelectorCity.__init__\<close> (lines 57 to
  80): \<^verbatim>\<open>S1_Nmin = 1\<close>, \<^verbatim>\<open>S1_Nmax = 1\<close> and \<^verbatim>\<open>S2_Nmin = 1\<close> are literals, everything else
  is an argument of the constructor.
\<close>

definition S1_criteria_of :: "S1_params \<Rightarrow> criteria" where
  "S1_criteria_of s1 =
     \<lparr>Nmin = 1, Nmax = 1,
      Emin = S1_Emin s1, Emax = S1_Emax s1,
      Lmin = S1_Lmin s1, Lmax = S1_Lmax s1,
      Hmin = S1_Hmin s1, Hmax = S1_Hmax s1,
      Ethr = S1_Ethr s1, NSIPM = None\<rparr>"

definition S2_criteria_of :: "S2_params \<Rightarrow> criteria" where
  "S2_criteria_of s2 =
     \<lparr>Nmin = 1, Nmax = S2_Nmax s2,
      Emin = S2_Emin s2, Emax = S2_Emax s2,
      Lmin = S2_Lmin s2, Lmax = S2_Lmax s2,
      Hmin = S2_Hmin s2, Hmax = S2_Hmax s2,
      Ethr = S2_Ethr s2, NSIPM = Some (S2_NSIPMmin s2, S2_NSIPMmax s2)\<rparr>"

definition Dorothea ::
  "int \<Rightarrow> string list \<Rightarrow> string \<Rightarrow> string \<Rightarrow> int \<Rightarrow> real \<Rightarrow> S1_params \<Rightarrow> S2_params \<Rightarrow>
   accepted_event city"
where
  "Dorothea run_number files_in file_out compression' nprint' drift_v s1 s2 =
     \<lparr>input_files = files_in, output_file = file_out, compression = compression',
      nprint = nprint',
      select_event =
        S12SelectorCity_select_event drift_v (S1_criteria_of s1) (S2_criteria_of s2),
      max_events_reached = City_max_events_reached\<rparr>"

subsection \<open>The driver \<^verbatim>\<open>DOROTHEA\<close>\<close>

text \<open>
  The parameters \<^verbatim>\<open>configure(argv)\<close> returns and the constants of the units module, both
  outside the sources. The unit constants are positive, so a bound of \<^verbatim>\<open>np.inf\<close>
  stays one when multiplied by a unit.
\<close>

record config =
  RUN_NUMBER :: int
  FILE_IN :: string
  FILE_OUT :: string
  COMPRESSION :: string
  NPRINT :: int
  DRIFT_V :: real
  S1_EMIN :: real
  S1_EMAX :: "real bound"
  S1_LMIN :: real
  S1_LMAX :: "real bound"
  S1_HMIN :: real
  S1_HMAX :: "real bound"
  S1_ETHR :: real
  S2_NMAX :: int
  S2_EMIN :: real
  S2_EMAX :: "real bound"
  S2_LMIN :: real
  S2_LMAX :: "real bound"
  S2_HMIN :: real
  S2_HMAX :: "real bound"
  S2_NSIPMMIN :: int
  S2_NSIPMMAX :: "int bound"
  S2_ETHR :: real
  NEVENTS :: int
  RUN_ALL :: bool

record units =
  mm :: real
  mus :: real
  pes :: real

fun times_unit :: "real bound \<Rightarrow> real \<Rightarrow> real bound" where
  "times_unit (Finite x) u = Finite (x * u)"
| "times_unit Infinity u = Infinity"

text \<open>
  The last line of the driver: \<^verbatim>\<open>dt/nevt_in\<close> divides a float by an integer and raises
  \<^verbatim>\<open>ZeroDivisionError\<close> when the integer is 0.
\<close>

definition timing_summary :: "int \<Rightarrow> real \<Rightarrow> exn + msg" where
  "timing_summary nevt_in dt =
     (if nevt_in = 0 then Inl ZeroDivisionError
      else Inr (DriverSummary nevt_in dt (dt / real_of_int nevt_in)))"

text \<open>
  The city the driver builds from the configuration (lines 151 to 176): the input files
  are the sorted matches of the pattern.
\<close>

definition dorothea_of :: "config \<Rightarrow> units \<Rightarrow> collaborators \<Rightarrow> accepted_event city" where
  "dorothea_of CFP u io =
     Dorothea (RUN_NUMBER CFP) (sort (glob io (FILE_IN CFP))) (FILE_OUT CFP) (COMPRESSION CFP)
       (NPRINT CFP) (DRIFT_V CFP * mm u / mus u)
       \<lparr>S1_Emin = S1_EMIN CFP * pes u, S1_Emax = times_unit (S1_EMAX CFP) (pes u),
        S1_Lmin = S1_LMIN CFP, S1_Lmax = S1_LMAX CFP,
        S1_Hmin = S1_HMIN CFP * pes u, S1_Hmax = times_unit (S1_HMAX CFP) (pes u),
        S1_Ethr = S1_ETHR CFP * pes u\<rparr>
       \<lparr>S2_Nmax = S2_NMAX CFP,
        S2_Emin = S2_EMIN CFP * pes u, S2_Emax = times_unit (S2_EMAX CFP) (pes u),
        S2_Lmin = S2_LMIN CFP, S2_Lmax = S2_LMAX CFP,
        S2_Hmin = S2_HMIN CFP * pes u, S2_Hmax = times_unit (S2_HMAX CFP) (pes u),
        S2_NSIPMmin = S2_NSIPMMIN CFP, S2_NSIPMmax = S2_NSIPMMAX CFP,
        S2_Ethr = S2_ETHR CFP * pes u\<rparr>"

text \<open>
  \<^verbatim>\<open>DOROTHEA\<close>: \<open>t0\<close> and \<open>t1\<close> are the two readings of \<^verbatim>\<open>time.time()\<close>, around the run.
\<close>

definition DOROTHEA ::
  "config \<Rightarrow> units \<Rightarrow> collaborators \<Rightarrow> real \<Rightarrow> real \<Rightarrow> accepted_event world \<Rightarrow>
   exn + accepted_event world"
where
  "DOROTHEA CFP u io t0 t1 w =
     (let dorothea = dorothea_of CFP u io;
          nevts = (if \<not> RUN_ALL CFP then NEVENTS CFP else - 1)
      in case run dorothea io nevts w of
           Inl e \<Rightarrow> Inl e
         | Inr (nevt_in, nevt_out, w') \<Rightarrow>
             (let dt = t1 - t0
              in case timing_summary nevt_in dt of
                   Inl e \<Rightarrow> Inl e
                 | Inr m \<Rightarrow> Inr (print_msg m w')))"

subsection \<open>What a run can consume, and what it opened\<close>

text \<open>
  The events a file offers to the loops: the pairs of its event index when both its PMaps
  and its index load, none otherwise.
\<close>

definition available :: "collaborators \<Rightarrow> string \<Rightarrow> nat" where
  "available io filename =
     (case load_pmaps io filename of
        Inl e \<Rightarrow> 0
      | Inr pm \<Rightarrow>
          (case get_event_numbers_and_timestamps_from_file_name io filename of
             Inl e \<Rightarrow> 0
           | Inr (event_numbers, timestamps) \<Rightarrow> length (zip event_numbers timestamps)))"

definition total_available :: "collaborators \<Rightarrow> string list \<Rightarrow> int" where
  "total_available io files = int (sum_list (map (available io) files))"

text \<open>The files a run opened, read off the \<^verbatim>\<open>Opening ...\<close> lines it printed.\<close>

fun opened_files :: "msg list \<Rightarrow> string list" where
  "opened_files [] = []"
| "opened_files (Opening f # ms) = f # opened_files ms"
| "opened_files (m # ms) = opened_files ms"

text \<open>
  What the loops need of \<^verbatim>\<open>max_events_reached(nmax, nevt_in)\<close>, whichever way the absent
  method compares: it never answers true for a negative \<open>nmax\<close>, nor while \<open>nevt_in\<close> is
  below \<open>nmax\<close>, and it answers true when \<open>nevt_in\<close> equals a non-negative \<open>nmax\<close>.
\<close>

definition cap_contract :: "(int \<Rightarrow> int \<Rightarrow> bool) \<Rightarrow> bool" where
  "cap_contract mer =
     (\<forall>nmax n. (mer nmax n \<longrightarrow> 0 \<le> nmax) \<and>
              (0 \<le> n \<and> n < nmax \<longrightarrow> \<not> mer nmax n) \<and>
              (0 \<le> nmax \<longrightarrow> mer nmax nmax))"

text \<open>
  A run that opened the first \<open>k\<close> of its files: it stopped before the last file only at
  the cap, and it opened its \<open>k\<close>-th file while the events of the files before were
  fewer than the cap.
\<close>

definition stops_at ::
  "collaborators \<Rightarrow> int \<Rightarrow> int \<Rightarrow> int \<Rightarrow> string list \<Rightarrow> nat \<Rightarrow> bool" where
  "stops_at io nmax nin nin' files k =
     (k \<le> length files \<and> (k < length files \<longrightarrow> nin' = nmax) \<and>
      (0 < k \<longrightarrow> nin + total_available io (take (k - 1) files) < nmax))"

text \<open>
  The events \<^verbatim>\<open>_event_loop\<close> is to forward to the sink for the pairs of an event index,
  in order: what \<^verbatim>\<open>select_event\<close> returns on the event's entries of the three maps, a
  missing entry being the empty map.
\<close>

definition selected_events ::
  "'e city \<Rightarrow> (int \<rightharpoonup> peak_map) \<Rightarrow> (int \<rightharpoonup> peak_map) \<Rightarrow> (int \<rightharpoonup> si_map) \<Rightarrow>
   (int \<times> int) list \<Rightarrow> 'e list"
where
  "selected_events self S1s S2s S2Sis es =
     List.map_filter
       (\<lambda>(evt_number, evt_time).
          select_event self evt_number evt_time
            (case S1s evt_number of None \<Rightarrow> [] | Some S1 \<Rightarrow> S1)
            (case S2s evt_number of None \<Rightarrow> [] | Some S2 \<Rightarrow> S2)
            (case S2Sis evt_number of None \<Rightarrow> [] | Some Si \<Rightarrow> Si))
       es"

text \<open>
  A file the file loop gets past without an exception of the loaders: its PMaps load and
  so does its event index, or its PMaps fail with one of the two exceptions that
  \<^verbatim>\<open>_main_loop\<close> catches.
\<close>

definition readable :: "collaborators \<Rightarrow> string \<Rightarrow> bool" where
  "readable io filename =
     (case load_pmaps io filename of
        Inl e \<Rightarrow> e = ValueError \<or> e = NoSuchNodeError
      | Inr pm \<Rightarrow>
          (case get_event_numbers_and_timestamps_from_file_name io filename of
             Inl e \<Rightarrow> False
           | Inr ix \<Rightarrow> True))"

subsection \<open>Example inputs\<close>

text \<open>
  An S1 peak of energy 10, two S2 peaks of energies 50 and 40 with three and one sensors,
  and a file of three events: event 1 has the S1 peak and both S2 peaks, event 2 the S1
  peak and the first S2 peak, event 3 has no entry in any of the three maps.
\<close>

definition example_S1 :: peak_map where
  "example_S1 = [(0, \<lparr>samples = [(100, 10)], time = 100, start_time = 100\<rparr>)]"

definition example_S2 :: peak_map where
  "example_S2 =
     [(0, \<lparr>samples = [(500, 50)], time = 500, start_time = 500\<rparr>),
      (1, \<lparr>samples = [(700, 40)], time = 700, start_time = 700\<rparr>)]"

definition example_Si :: si_map where
  "example_Si = [(0, [(1, 5), (2, 7), (3, 9)]), (1, [(4, 2)])]"

definition example_pmaps :: pmaps where
  "example_pmaps =
     ([1 \<mapsto> example_S1, 2 \<mapsto> example_S1],
      [1 \<mapsto> example_S2, 2 \<mapsto> take 1 example_S2],
      [1 \<mapsto> example_Si, 2 \<mapsto> example_Si])"

text \<open>
  Every file holds these three events, but for three names: two fail to load with the
  exceptions \<^verbatim>\<open>_main_loop\<close> catches, one with another exception.
\<close>

definition example_load :: "string \<Rightarrow> exn + pmaps" where
  "example_load f =
     (if f = ''empty.h5'' then Inl ValueError
      else if f = ''nonode.h5'' then Inl NoSuchNodeError
      else if f = ''broken.h5'' then Inl OtherException
      else Inr example_pmaps)"

definition example_index :: "string \<Rightarrow> exn + (int list \<times> int list)" where
  "example_index f = Inr ([1, 2, 3], [1000, 2000, 3000])"

definition example_glob :: "string \<Rightarrow> string list" where
  "example_glob pattern = [''b.h5'', ''a.h5'']"

definition example_io :: collaborators where
  "example_io =
     \<lparr>load_pmaps = example_load,
      get_event_numbers_and_timestamps_from_file_name = example_index,
      glob = example_glob\<rparr>"

definition example_world :: "accepted_event world" where
  "example_world = \<lparr>sink = [], stdout = []\<rparr>"

text \<open>A city with the default criteria but for the S2 cap, on the given files.\<close>

definition example_city :: "string list \<Rightarrow> int \<Rightarrow> accepted_event city" where
  "example_city files cap =
     Dorothea 0 files ''out.h5'' ''ZLIB4'' 10000 1 S1_defaults (S2_defaults\<lparr>S2_Nmax := cap\<rparr>)"

text \<open>
  A city whose \<^verbatim>\<open>select_event\<close> accepts every event and returns what it was called
  with, and which prints progress every second event.
\<close>

definition probe_city :: "(int \<times> int \<times> peak_map \<times> peak_map \<times> si_map) city" where
  "probe_city =
     \<lparr>input_files = [], output_file = ''out.h5'', compression = ''ZLIB4'', nprint = 2,
      select_event = (\<lambda>evt_number evt_time S1 S2 Si. Some (evt_number, evt_time, S1, S2, Si)),
      max_events_reached = City_max_events_reached\<rparr>"

definition probe_world :: "(int \<times> int \<times> peak_map \<times> peak_map \<times> si_map) world" where
  "probe_world = \<lparr>sink = [], stdout = []\<rparr>"

text \<open>A configuration for the driver, with unit constants 1, and the two clock readings.\<close>

definition example_units :: units where
  "example_units = \<lparr>mm = 1, mus = 1, pes = 1\<rparr>"

definition example_config :: config where
  "example_config =
     \<lparr>RUN_NUMBER = 0, FILE_IN = ''*.h5'', FILE_OUT = ''out.h5'', COMPRESSION = ''ZLIB4'',
      NPRINT = 10000, DRIFT_V = 1,
      S1_EMIN = 0, S1_EMAX = Finite 100, S1_LMIN = 0, S1_LMAX = Infinity,
      S1_HMIN = 0, S1_HMAX = Infinity, S1_ETHR = 0,
      S2_NMAX = 1, S2_EMIN = 0, S2_EMAX = Finite 100, S2_LMIN = 0, S2_LMAX = Infinity,
      S2_HMIN = 0, S2_HMAX = Infinity, S2_NSIPMMIN = 1, S2_NSIPMMAX = Finite 10, S2_ETHR = 0,
      NEVENTS = 4, RUN_ALL = False\<rparr>"

section \<open>Properties of the loops\<close>

subsection \<open>One iteration, the event loop\<close>

lemma event_body_Inr:
  "event_body self nmax write_kr S1s S2s S2Sis n t nin nout w = Inr (nin', nout', r, w') \<Longrightarrow>
   nprint self \<noteq> 0 \<and> nin' = nin + 1 \<and>
   nout' = (case select_event self n t (dict_get S1s n) (dict_get S2s n) (dict_get S2Sis n) of
              None \<Rightarrow> nout | Some e \<Rightarrow> nout + 1) \<and>
   r = max_events_reached self nmax (nin + 1)"
  by (auto simp: event_body_def Let_def split: if_splits)

lemma event_body_Inl:
  "event_body self nmax write_kr S1s S2s S2Sis n t nin nout w = Inl e \<longleftrightarrow>
   nprint self = 0 \<and> e = ZeroDivisionError"
  by (auto simp: event_body_def Let_def split: if_splits)

lemma for_events_Inl:
  "for_events self nmax write_kr S1s S2s S2Sis es nin nout w = Inl e \<Longrightarrow>
   nprint self = 0 \<and> e = ZeroDivisionError"
proof (induction es arbitrary: nin nout w)
  case Nil
  then show ?case by simp
next
  case (Cons a es)
  obtain n t where a: "a = (n, t)" by (cases a)
  show ?case
  proof (cases "event_body self nmax write_kr S1s S2s S2Sis n t nin nout w")
    case (Inl e')
    with Cons.prems a show ?thesis by (simp add: event_body_Inl)
  next
    case (Inr res)
    obtain nin' nout' r w' where res: "res = (nin', nout', r, w')" by (cases res) auto
    with Cons.prems a Inr Cons.IH[of nin' nout' w'] show ?thesis
      by (simp split: if_splits)
  qed
qed

lemma for_events_inv:
  "for_events self nmax write_kr S1s S2s S2Sis es nin nout w = Inr (nin', nout', r, w') \<Longrightarrow>
   0 \<le> nout \<Longrightarrow> nout \<le> nin \<Longrightarrow>
   0 \<le> nout' \<and> nout' \<le> nin' \<and> nin \<le> nin' \<and> nout \<le> nout'"
proof (induction es arbitrary: nin nout w)
  case Nil
  then show ?case by simp
next
  case (Cons a es)
  obtain n t where a: "a = (n, t)" by (cases a)
  show ?case
  proof (cases "event_body self nmax write_kr S1s S2s S2Sis n t nin nout w")
    case (Inl e')
    with Cons.prems a show ?thesis by simp
  next
    case (Inr res)
    obtain nin1 nout1 r1 w1 where res: "res = (nin1, nout1, r1, w1)" by (cases res) auto
    from event_body_Inr[OF Inr[unfolded res]]
    have s: "nin1 = nin + 1" "nout1 = nout \<or> nout1 = nout + 1"
      by (auto split: option.splits)
    show ?thesis
    proof (cases r1)
      case True
      with Cons.prems a Inr res s show ?thesis by auto
    next
      case False
      with Cons.prems a Inr res
      have "for_events self nmax write_kr S1s S2s S2Sis es nin1 nout1 w1 = Inr (nin', nout', r, w')"
        by simp
      from Cons.IH[OF this] s Cons.prems(2,3) show ?thesis by auto
    qed
  qed
qed

lemma cap_contractD:
  assumes "cap_contract mer"
  shows "mer nmax n \<Longrightarrow> 0 \<le> nmax" and "0 \<le> n \<Longrightarrow> n < nmax \<Longrightarrow> \<not> mer nmax n"
    and "0 \<le> nmax \<Longrightarrow> mer nmax nmax"
  using assms unfolding cap_contract_def by blast+

lemma opened_files_append: "opened_files (xs @ ys) = opened_files xs @ opened_files ys"
  by (induction xs rule: opened_files.induct) auto

lemma event_body_stdout:
  "event_body self nmax kr_writer S1s S2s S2Sis n t nin nout w = Inr (nin', nout', r, w') \<Longrightarrow>
   opened_files (stdout w') = opened_files (stdout w)"
  by (auto simp: event_body_def Let_def kr_writer_def print_msg_def opened_files_append
           split: if_splits option.splits)

lemma for_events_count:
  assumes c: "cap_contract (max_events_reached self)"
  shows "for_events self nmax write_kr S1s S2s S2Sis es nin nout w = Inr (nin', nout', r, w') \<Longrightarrow>
    0 \<le> nin \<Longrightarrow>
    (nmax < 0 \<longrightarrow> nin' = nin + int (length es) \<and> \<not> r) \<and>
    (nin < nmax \<longrightarrow> nin' = min nmax (nin + int (length es)) \<and> (r \<longleftrightarrow> nmax \<le> nin + int (length es)))"
proof (induction es arbitrary: nin nout w)
  case Nil
  then show ?case by auto
next
  case (Cons a es)
  obtain n t where a: "a = (n, t)" by (cases a)
  show ?case
  proof (cases "event_body self nmax write_kr S1s S2s S2Sis n t nin nout w")
    case (Inl e')
    with Cons.prems a show ?thesis by simp
  next
    case (Inr res)
    obtain nin1 nout1 r1 w1 where res: "res = (nin1, nout1, r1, w1)" by (cases res) auto
    from event_body_Inr[OF Inr[unfolded res]]
    have s: "nin1 = nin + 1" "r1 = max_events_reached self nmax (nin + 1)"
      by auto
    show ?thesis
    proof (cases r1)
      case True
      with Cons.prems a Inr res have eq: "nin' = nin1" "r" by auto
      from True s cap_contractD(1)[OF c, of nmax "nin + 1"] have nn: "0 \<le> nmax" by simp
      have "\<not> nin + 1 < nmax"
        using True s cap_contractD(2)[OF c, of "nin + 1" nmax] Cons.prems(2) by auto
      with eq s nn show ?thesis by auto
    next
      case False
      with Cons.prems a Inr res
      have rec: "for_events self nmax write_kr S1s S2s S2Sis es nin1 nout1 w1 = Inr (nin', nout', r, w')"
        by simp
      have "0 \<le> nin1" using s Cons.prems(2) by simp
      from Cons.IH[OF rec this]
      have ih: "nmax < 0 \<longrightarrow> nin' = nin1 + int (length es) \<and> \<not> r"
               "nin1 < nmax \<longrightarrow> nin' = min nmax (nin1 + int (length es)) \<and> (r \<longleftrightarrow> nmax \<le> nin1 + int (length es))"
        by auto
      have ne: "nin + 1 \<noteq> nmax"
        using False s cap_contractD(3)[OF c, of nmax] Cons.prems(2) by auto
      with ih s show ?thesis by auto
    qed
  qed
qed

lemma for_events_opened:
  "for_events self nmax kr_writer S1s S2s S2Sis es nin nout w = Inr (nin', nout', r, w') \<Longrightarrow>
   opened_files (stdout w') = opened_files (stdout w)"
proof (induction es arbitrary: nin nout w)
  case Nil
  then show ?case by simp
next
  case (Cons a es)
  obtain n t where a: "a = (n, t)" by (cases a)
  show ?case
  proof (cases "event_body self nmax kr_writer S1s S2s S2Sis n t nin nout w")
    case (Inl e')
    with Cons.prems a show ?thesis by simp
  next
    case (Inr res)
    obtain nin1 nout1 r1 w1 where res: "res = (nin1, nout1, r1, w1)" by (cases res) auto
    note b = event_body_stdout[OF Inr[unfolded res]]
    show ?thesis
    proof (cases r1)
      case True
      with Cons.prems a Inr res b show ?thesis by auto
    next
      case False
      with Cons.prems a Inr res
      have "for_events self nmax kr_writer S1s S2s S2Sis es nin1 nout1 w1 = Inr (nin', nout', r, w')"
        by simp
      from Cons.IH[OF this] b show ?thesis by simp
    qed
  qed
qed

subsection \<open>The file loop\<close>

lemma for_files_Cons_Inr:
  assumes "for_files self io write_kr nmax (f # rest) nin nout w = Inr (nin', nout', w')"
  obtains
    (skipped) "load_pmaps io f = Inl ValueError \<or> load_pmaps io f = Inl NoSuchNodeError"
      "for_files self io write_kr nmax rest nin nout
         (print_msg EmptyFileSkipping (print_msg (Opening f) w)) = Inr (nin', nout', w')"
  | (stopped) S1s S2s S2Sis ens ts w1 where
      "load_pmaps io f = Inr (S1s, S2s, S2Sis)"
      "get_event_numbers_and_timestamps_from_file_name io f = Inr (ens, ts)"
      "for_events self nmax write_kr S1s S2s S2Sis (zip ens ts) nin nout (print_msg (Opening f) w)
         = Inr (nin', nout', True, w1)"
      "w' = print_msg MaxEventsReached w1"
  | (continued) S1s S2s S2Sis ens ts nin1 nout1 w1 where
      "load_pmaps io f = Inr (S1s, S2s, S2Sis)"
      "get_event_numbers_and_timestamps_from_file_name io f = Inr (ens, ts)"
      "for_events self nmax write_kr S1s S2s S2Sis (zip ens ts) nin nout (print_msg (Opening f) w)
         = Inr (nin1, nout1, False, w1)"
      "for_files self io write_kr nmax rest nin1 nout1 (print_msg OK w1) = Inr (nin', nout', w')"
proof (cases "load_pmaps io f")
  case (Inl e)
  with assms show ?thesis
    by (intro skipped) (auto simp: Let_def split: if_splits)
next
  case (Inr pm)
  obtain S1s S2s S2Sis where pm: "pm = (S1s, S2s, S2Sis)" by (cases pm) auto
  show ?thesis
  proof (cases "get_event_numbers_and_timestamps_from_file_name io f")
    case (Inl e)
    with assms Inr pm show ?thesis by (simp add: Let_def)
  next
    case ix: (Inr idx)
    obtain ens ts where idx: "idx = (ens, ts)" by (cases idx)
    show ?thesis
    proof (cases "for_events self nmax write_kr S1s S2s S2Sis (zip ens ts) nin nout (print_msg (Opening f) w)")
      case (Inl e)
      with assms Inr pm ix idx show ?thesis by (simp add: Let_def event_loop_def)
    next
      case ev: (Inr res)
      obtain nin1 nout1 r w1 where res: "res = (nin1, nout1, r, w1)" by (cases res) auto
      show ?thesis
      proof (cases r)
        case True
        with assms Inr pm ix idx ev res show ?thesis
          by (intro stopped[of S1s S2s S2Sis ens ts w1]) (auto simp: Let_def event_loop_def)
      next
        case False
        with assms Inr pm ix idx ev res show ?thesis
          by (intro continued[of S1s S2s S2Sis ens ts nin1 nout1 w1]) (auto simp: Let_def event_loop_def)
      qed
    qed
  qed
qed

lemma for_files_inv:
  "for_files self io write_kr nmax files nin nout w = Inr (nin', nout', w') \<Longrightarrow>
   0 \<le> nout \<Longrightarrow> nout \<le> nin \<Longrightarrow>
   0 \<le> nout' \<and> nout' \<le> nin' \<and> nin \<le> nin' \<and> nout \<le> nout'"
proof (induction files arbitrary: nin nout w)
  case Nil
  then show ?case by simp
next
  case (Cons f rest)
  from Cons.prems(1) show ?case
  proof (cases rule: for_files_Cons_Inr)
    case skipped
    from Cons.IH[OF skipped(2) Cons.prems(2,3)] show ?thesis .
  next
    case (stopped S1s S2s S2Sis ens ts w1)
    from for_events_inv[OF stopped(3) Cons.prems(2,3)] show ?thesis .
  next
    case (continued S1s S2s S2Sis ens ts nin1 nout1 w1)
    from for_events_inv[OF continued(3) Cons.prems(2,3)]
    have a: "0 \<le> nout1" "nout1 \<le> nin1" "nin \<le> nin1" "nout \<le> nout1" by auto
    from Cons.IH[OF continued(4) a(1,2)] a show ?thesis by auto
  qed
qed

lemma stdout_print_msg: "stdout (print_msg m w) = stdout w @ [m]"
  by (simp add: print_msg_def)

lemma total_available_Nil: "total_available io [] = 0"
  by (simp add: total_available_def)

lemma total_available_Cons:
  "total_available io (f # rest) = int (available io f) + total_available io rest"
  by (simp add: total_available_def)

lemma total_available_nonneg: "0 \<le> total_available io files"
  by (simp add: total_available_def)

lemma stops_at_Nil: "stops_at io nmax nin nin' [] 0"
  by (simp add: stops_at_def)

lemma stops_at_one:
  assumes "nin < nmax" "nin' = nmax"
  shows "stops_at io nmax nin nin' (f # rest) (Suc 0)"
  using assms by (simp add: stops_at_def total_available_Nil)

lemma stops_at_Suc:
  assumes k: "stops_at io nmax (nin + int (available io f)) nin' rest k" and lt: "nin < nmax"
  shows "stops_at io nmax nin nin' (f # rest) (Suc k)"
proof (cases k)
  case 0
  with k lt show ?thesis by (simp add: stops_at_def total_available_Nil)
next
  case (Suc j)
  with k lt show ?thesis by (simp add: stops_at_def total_available_Cons add.assoc)
qed

lemma for_files_count_neg:
  assumes c: "cap_contract (max_events_reached self)" and neg: "nmax < 0"
  shows "for_files self io kr_writer nmax files nin nout w = Inr (nin', nout', w') \<Longrightarrow>
    0 \<le> nin \<Longrightarrow>
    nin' = nin + total_available io files \<and>
    opened_files (stdout w') = opened_files (stdout w) @ files"
proof (induction files arbitrary: nin nout w)
  case Nil
  then show ?case by (simp add: total_available_Nil)
next
  case (Cons f rest)
  from Cons.prems(1) show ?case
  proof (cases rule: for_files_Cons_Inr)
    case skipped
    have av: "available io f = 0" using skipped(1) by (auto simp: available_def)
    have op: "opened_files (stdout (print_msg EmptyFileSkipping (print_msg (Opening f) w)))
               = opened_files (stdout w) @ [f]"
      by (simp add: stdout_print_msg opened_files_append)
    from Cons.IH[OF skipped(2) Cons.prems(2)] op av show ?thesis
      by (simp add: total_available_Cons)
  next
    case (stopped S1s S2s S2Sis ens ts w1)
    from for_events_count[OF c stopped(3) Cons.prems(2)] neg show ?thesis by simp
  next
    case (continued S1s S2s S2Sis ens ts nin1 nout1 w1)
    have av: "available io f = length (zip ens ts)"
      using continued(1,2) by (simp add: available_def)
    from for_events_count[OF c continued(3) Cons.prems(2)] neg
    have n1: "nin1 = nin + int (available io f)" by (simp add: av)
    then have nn: "0 \<le> nin1" using Cons.prems(2) by simp
    have op: "opened_files (stdout (print_msg OK w1)) = opened_files (stdout w) @ [f]"
      using for_events_opened[OF continued(3)]
      by (simp add: stdout_print_msg opened_files_append)
    from Cons.IH[OF continued(4) nn] op n1 show ?thesis
      by (simp add: total_available_Cons)
  qed
qed

lemma for_files_count_pos:
  assumes c: "cap_contract (max_events_reached self)"
  shows "for_files self io kr_writer nmax files nin nout w = Inr (nin', nout', w') \<Longrightarrow>
    0 \<le> nin \<Longrightarrow> nin < nmax \<Longrightarrow>
    nin' = min nmax (nin + total_available io files) \<and>
    (\<exists>k. opened_files (stdout w') = opened_files (stdout w) @ take k files \<and>
         stops_at io nmax nin nin' files k)"
proof (induction files arbitrary: nin nout w)
  case Nil
  have "opened_files (stdout w) = opened_files (stdout w) @ take 0 [] \<and>
        stops_at io nmax nin nin' [] 0"
    by (simp add: stops_at_Nil)
  then have "\<exists>k. opened_files (stdout w) = opened_files (stdout w) @ take k [] \<and>
        stops_at io nmax nin nin' [] k" ..
  with Nil show ?case by (simp add: total_available_Nil)
next
  case (Cons f rest)
  from Cons.prems(1) show ?case
  proof (cases rule: for_files_Cons_Inr)
    case skipped
    have av: "available io f = 0" using skipped(1) by (auto simp: available_def)
    let ?w = "print_msg EmptyFileSkipping (print_msg (Opening f) w)"
    have op: "opened_files (stdout ?w) = opened_files (stdout w) @ [f]"
      by (simp add: stdout_print_msg opened_files_append)
    from Cons.IH[OF skipped(2) Cons.prems(2,3)]
    obtain k where n: "nin' = min nmax (nin + total_available io rest)"
      and k: "opened_files (stdout w') = opened_files (stdout ?w) @ take k rest"
             "stops_at io nmax nin nin' rest k"
      by blast
    from k(2) av have "stops_at io nmax (nin + int (available io f)) nin' rest k" by simp
    from stops_at_Suc[OF this Cons.prems(3)]
    have s: "stops_at io nmax nin nin' (f # rest) (Suc k)" .
    have o: "opened_files (stdout w') = opened_files (stdout w) @ take (Suc k) (f # rest)"
      using k(1) op by simp
    from o s have "\<exists>k. opened_files (stdout w') = opened_files (stdout w) @ take k (f # rest) \<and>
         stops_at io nmax nin nin' (f # rest) k" by blast
    moreover have "nin' = min nmax (nin + total_available io (f # rest))"
      using n av by (simp add: total_available_Cons)
    ultimately show ?thesis by blast
  next
    case (stopped S1s S2s S2Sis ens ts w1)
    have av: "available io f = length (zip ens ts)"
      using stopped(1,2) by (simp add: available_def)
    from for_events_count[OF c stopped(3) Cons.prems(2)] Cons.prems(3)
    have n: "nin' = nmax" "nmax \<le> nin + int (available io f)"
      by (auto simp: av)
    have op: "opened_files (stdout w') = opened_files (stdout w) @ take (Suc 0) (f # rest)"
      using for_events_opened[OF stopped(3)] stopped(4)
      by (simp add: stdout_print_msg opened_files_append)
    from op stops_at_one[OF Cons.prems(3) n(1), of io f rest]
    have "\<exists>k. opened_files (stdout w') = opened_files (stdout w) @ take k (f # rest) \<and>
         stops_at io nmax nin nin' (f # rest) k" by blast
    moreover have "nin' = min nmax (nin + total_available io (f # rest))"
      using n total_available_nonneg[of io rest] by (simp add: total_available_Cons)
    ultimately show ?thesis by blast
  next
    case (continued S1s S2s S2Sis ens ts nin1 nout1 w1)
    have av: "available io f = length (zip ens ts)"
      using continued(1,2) by (simp add: available_def)
    from for_events_count[OF c continued(3) Cons.prems(2)] Cons.prems(3)
    have n1: "nin1 = nin + int (available io f)" "nin1 < nmax"
      by (auto simp: av)
    then have nn: "0 \<le> nin1" using Cons.prems(2) by simp
    let ?w = "print_msg OK w1"
    have op: "opened_files (stdout ?w) = opened_files (stdout w) @ [f]"
      using for_events_opened[OF continued(3)]
      by (simp add: stdout_print_msg opened_files_append)
    from Cons.IH[OF continued(4) nn n1(2)]
    obtain k where n: "nin' = min nmax (nin1 + total_available io rest)"
      and k: "opened_files (stdout w') = opened_files (stdout ?w) @ take k rest"
             "stops_at io nmax nin1 nin' rest k"
      by blast
    from k(2) n1 have "stops_at io nmax (nin + int (available io f)) nin' rest k" by simp
    from stops_at_Suc[OF this Cons.prems(3)]
    have s: "stops_at io nmax nin nin' (f # rest) (Suc k)" .
    have o: "opened_files (stdout w') = opened_files (stdout w) @ take (Suc k) (f # rest)"
      using k(1) op by simp
    from o s have "\<exists>k. opened_files (stdout w') = opened_files (stdout w) @ take k (f # rest) \<and>
         stops_at io nmax nin nin' (f # rest) k" by blast
    moreover have "nin' = min nmax (nin + total_available io (f # rest))"
      using n n1 by (simp add: total_available_Cons add.assoc)
    ultimately show ?thesis by blast
  qed
qed

subsection \<open>Evaluating the examples\<close>

lemmas ex_defs = example_city_def Dorothea_def example_io_def example_load_def example_index_def
  example_pmaps_def example_S1_def example_S2_def example_Si_def example_world_def
  S1_defaults_def S2_defaults_def S1_criteria_of_def S2_criteria_of_def
  S12SelectorCity_select_event_def City_max_events_reached_def filter_peaks_def peak_passes_def
  energy_def width_def height_def n_sensors_def reduce_def dict_get_def
  event_loop_def event_body_def main_loop_def kr_writer_def print_msg_def Let_def

section \<open>The claims\<close>

subsection \<open>The counters (C5)\<close>



subsection \<open>Missing keys (C8)\<close>

lemma dict_get_total: "dict_get (\<lambda>k. Some (dict_get d k)) k = dict_get d k"
  by (simp add: dict_get_def)

lemma event_body_total_maps:
  "event_body self nmax write_kr (\<lambda>k. Some (dict_get S1s k)) (\<lambda>k. Some (dict_get S2s k))
     (\<lambda>k. Some (dict_get S2Sis k)) n t nin nout w =
   event_body self nmax write_kr S1s S2s S2Sis n t nin nout w"
  by (simp add: event_body_def dict_get_total)

lemma for_events_total_maps:
  "for_events self nmax write_kr (\<lambda>k. Some (dict_get S1s k)) (\<lambda>k. Some (dict_get S2s k))
     (\<lambda>k. Some (dict_get S2Sis k)) es nin nout w =
   for_events self nmax write_kr S1s S2s S2Sis es nin nout w"
proof (induction es arbitrary: nin nout w)
  case Nil
  show ?case by simp
next
  case (Cons a es)
  obtain n t where a: "a = (n, t)" by (cases a)
  show ?case
    unfolding a for_events.simps event_body_total_maps
    by (simp add: Cons.IH split: sum.splits)
qed

lemma selected_events_Nil: "selected_events self S1s S2s S2Sis [] = []"
  by (simp add: selected_events_def map_filter_simps)

lemma selected_events_Cons:
  "selected_events self S1s S2s S2Sis ((n, t) # es) =
   (case select_event self n t (dict_get S1s n) (dict_get S2s n) (dict_get S2Sis n) of
      None \<Rightarrow> selected_events self S1s S2s S2Sis es
    | Some e \<Rightarrow> e # selected_events self S1s S2s S2Sis es)"
  unfolding selected_events_def dict_get_def by (simp add: map_filter_simps)

lemma event_body_uncapped:
  assumes "nprint self \<noteq> 0" "\<forall>k. \<not> max_events_reached self nmax k"
  shows "\<exists>w'. event_body self nmax kr_writer S1s S2s S2Sis n t nin nout w =
           Inr (nin + 1,
                nout + int (length (selected_events self S1s S2s S2Sis [(n, t)])),
                False, w') \<and>
         sink w' = sink w @ selected_events self S1s S2s S2Sis [(n, t)]"
  using assms
  by (cases "select_event self n t (dict_get S1s n) (dict_get S2s n) (dict_get S2Sis n)")
     (simp_all add: event_body_def Let_def selected_events_Cons selected_events_Nil
        kr_writer_def print_msg_def)

lemma selected_events_split:
  "selected_events self S1s S2s S2Sis (a # es) =
   selected_events self S1s S2s S2Sis [a] @ selected_events self S1s S2s S2Sis es"
  by (cases a) (simp add: selected_events_Cons selected_events_Nil split: option.splits)

lemma for_events_uncapped:
  assumes np: "nprint self \<noteq> 0" and nc: "\<forall>k. \<not> max_events_reached self nmax k"
  shows "\<exists>w'. for_events self nmax kr_writer S1s S2s S2Sis es nin nout w =
           Inr (nin + int (length es),
                nout + int (length (selected_events self S1s S2s S2Sis es)), False, w') \<and>
         sink w' = sink w @ selected_events self S1s S2s S2Sis es"
proof (induction es arbitrary: nin nout w)
  case Nil
  show ?case by (simp add: selected_events_Nil)
next
  case (Cons a es)
  obtain n t where a: "a = (n, t)" by (cases a)
  let ?one = "selected_events self S1s S2s S2Sis [(n, t)]"
  from event_body_uncapped[OF np nc, of S1s S2s S2Sis n t nin nout w]
  obtain w1 where b: "event_body self nmax kr_writer S1s S2s S2Sis n t nin nout w =
           Inr (nin + 1, nout + int (length ?one), False, w1)"
    and s1: "sink w1 = sink w @ ?one"
    by blast
  from Cons.IH[of "nin + 1" "nout + int (length ?one)" w1]
  obtain w' where r: "for_events self nmax kr_writer S1s S2s S2Sis es (nin + 1)
        (nout + int (length ?one)) w1 =
           Inr (nin + 1 + int (length es),
                nout + int (length ?one) + int (length (selected_events self S1s S2s S2Sis es)),
                False, w')"
    and s2: "sink w' = sink w1 @ selected_events self S1s S2s S2Sis es"
    by blast
  have sp: "selected_events self S1s S2s S2Sis (a # es) =
      ?one @ selected_events self S1s S2s S2Sis es"
    unfolding a by (rule selected_events_split)
  have "for_events self nmax kr_writer S1s S2s S2Sis (a # es) nin nout w =
           Inr (nin + int (length (a # es)),
                nout + int (length (selected_events self S1s S2s S2Sis (a # es))), False, w')"
    unfolding sp by (simp add: a b r)
  moreover have "sink w' = sink w @ selected_events self S1s S2s S2Sis (a # es)"
    unfolding sp by (simp add: s1 s2)
  ultimately show ?case by blast
qed

text \<open>
  Claim C8. For an event number drawn from the event index, a missing entry in the S1, S2
  or S2Si mapping of the file is replaced by the empty map: the iteration calls
  \<^verbatim>\<open>select_event\<close> with \<open>[]\<close> for each missing class and goes on as usual. The event
  loop runs this iteration on every pair of the index, in order, until the cap stops it;
  the only exception it can raise is the \<^verbatim>\<open>ZeroDivisionError\<close> of a zero \<^verbatim>\<open>nprint\<close>, never
  one for a missing key. When the cap does not stop it, it counts every pair of the index
  and forwards to the sink exactly what \<^verbatim>\<open>select_event\<close> returns on the entries of the
  three maps, empty where missing. It behaves on the loaded maps as on the maps completed
  with an empty map for every missing event number.
\<close>

theorem missing_keys_are_empty_maps:
  "(nprint self \<noteq> 0 \<longrightarrow>
      event_body self nmax write_kr S1s S2s S2Sis evt_number evt_time nin nout w =
        (let evt = select_event self evt_number evt_time
                     (case S1s evt_number of None \<Rightarrow> [] | Some S1 \<Rightarrow> S1)
                     (case S2s evt_number of None \<Rightarrow> [] | Some S2 \<Rightarrow> S2)
                     (case S2Sis evt_number of None \<Rightarrow> [] | Some Si \<Rightarrow> Si);
             w1 = (case evt of None \<Rightarrow> w | Some e \<Rightarrow> write_kr e w)
         in Inr (nin + 1,
                 (case evt of None \<Rightarrow> nout | Some e \<Rightarrow> nout + 1),
                 max_events_reached self nmax (nin + 1),
                 (if (nin + 1) mod nprint self = 0
                  then print_msg (EvtsAnalyzed (nin + 1)) w1 else w1)))) \<and>
   event_loop self [] timestamps nmax nin nout write_kr S1s S2s S2Sis w
     = Inr (nin, nout, False, w) \<and>
   event_loop self (evt_number # event_numbers) (evt_time # timestamps) nmax nin nout write_kr
       S1s S2s S2Sis w =
     (case event_body self nmax write_kr S1s S2s S2Sis evt_number evt_time nin nout w of
        Inl e \<Rightarrow> Inl e
      | Inr (nin', nout', reached, w') \<Rightarrow>
          if reached then Inr (nin', nout', True, w')
          else event_loop self event_numbers timestamps nmax nin' nout' write_kr
                 S1s S2s S2Sis w') \<and>
   (\<forall>e. event_loop self event_numbers timestamps nmax nin nout write_kr S1s S2s S2Sis w = Inl e
        \<longrightarrow> nprint self = 0 \<and> e = ZeroDivisionError) \<and>
   (nprint self \<noteq> 0 \<and> (\<forall>k. \<not> max_events_reached self nmax k) \<longrightarrow>
      (\<exists>w'. event_loop self event_numbers timestamps nmax nin nout kr_writer S1s S2s S2Sis w =
              Inr (nin + int (length (zip event_numbers timestamps)),
                   nout + int (length (selected_events self S1s S2s S2Sis
                                         (zip event_numbers timestamps))),
                   False, w') \<and>
            sink w' = sink w @ selected_events self S1s S2s S2Sis
                                 (zip event_numbers timestamps))) \<and>
   event_loop self event_numbers timestamps nmax nin nout write_kr S1s S2s S2Sis w =
     event_loop self event_numbers timestamps nmax nin nout write_kr
       (\<lambda>k. Some (dict_get S1s k)) (\<lambda>k. Some (dict_get S2s k)) (\<lambda>k. Some (dict_get S2Sis k)) w"
proof (intro conjI allI impI)
  assume "nprint self \<noteq> 0"
  then show "event_body self nmax write_kr S1s S2s S2Sis evt_number evt_time nin nout w =
        (let evt = select_event self evt_number evt_time
                     (case S1s evt_number of None \<Rightarrow> [] | Some S1 \<Rightarrow> S1)
                     (case S2s evt_number of None \<Rightarrow> [] | Some S2 \<Rightarrow> S2)
                     (case S2Sis evt_number of None \<Rightarrow> [] | Some Si \<Rightarrow> Si);
             w1 = (case evt of None \<Rightarrow> w | Some e \<Rightarrow> write_kr e w)
         in Inr (nin + 1,
                 (case evt of None \<Rightarrow> nout | Some e \<Rightarrow> nout + 1),
                 max_events_reached self nmax (nin + 1),
                 (if (nin + 1) mod nprint self = 0
                  then print_msg (EvtsAnalyzed (nin + 1)) w1 else w1)))"
    by (simp add: event_body_def dict_get_def Let_def)
next
  show "event_loop self [] timestamps nmax nin nout write_kr S1s S2s S2Sis w
     = Inr (nin, nout, False, w)"
    by (simp add: event_loop_def)
next
  show "event_loop self (evt_number # event_numbers) (evt_time # timestamps) nmax nin nout
       write_kr S1s S2s S2Sis w =
     (case event_body self nmax write_kr S1s S2s S2Sis evt_number evt_time nin nout w of
        Inl e \<Rightarrow> Inl e
      | Inr (nin', nout', reached, w') \<Rightarrow>
          if reached then Inr (nin', nout', True, w')
          else event_loop self event_numbers timestamps nmax nin' nout' write_kr
                 S1s S2s S2Sis w')"
    unfolding event_loop_def by (simp split: sum.splits)
next
  fix e
  assume "event_loop self event_numbers timestamps nmax nin nout write_kr S1s S2s S2Sis w = Inl e"
  then have "for_events self nmax write_kr S1s S2s S2Sis (zip event_numbers timestamps) nin nout w
               = Inl e"
    by (simp add: event_loop_def)
  from for_events_Inl[OF this] show "nprint self = 0" "e = ZeroDivisionError" by simp_all
next
  assume a: "nprint self \<noteq> 0 \<and> (\<forall>k. \<not> max_events_reached self nmax k)"
  then have np: "nprint self \<noteq> 0" and nc: "\<forall>k. \<not> max_events_reached self nmax k"
    by simp_all
  from for_events_uncapped[OF np nc, of S1s S2s S2Sis "zip event_numbers timestamps" nin nout w]
  show "\<exists>w'. event_loop self event_numbers timestamps nmax nin nout kr_writer S1s S2s S2Sis w =
              Inr (nin + int (length (zip event_numbers timestamps)),
                   nout + int (length (selected_events self S1s S2s S2Sis
                                         (zip event_numbers timestamps))),
                   False, w') \<and>
            sink w' = sink w @ selected_events self S1s S2s S2Sis
                                 (zip event_numbers timestamps)"
    by (simp only: event_loop_def)
next
  show "event_loop self event_numbers timestamps nmax nin nout write_kr S1s S2s S2Sis w =
     event_loop self event_numbers timestamps nmax nin nout write_kr
       (\<lambda>k. Some (dict_get S1s k)) (\<lambda>k. Some (dict_get S2s k)) (\<lambda>k. Some (dict_get S2Sis k)) w"
    by (simp add: event_loop_def for_events_total_maps)
qed

theorem missing_keys_are_empty_maps_witness:
  "nprint probe_city \<noteq> 0 \<and>
   fst example_pmaps 3 = None \<and> fst (snd example_pmaps) 3 = None \<and>
   snd (snd example_pmaps) 3 = None \<and>
   event_loop probe_city [1, 2, 3] [1000, 2000, 3000] (- 1) 0 0 kr_writer
     (fst example_pmaps) (fst (snd example_pmaps)) (snd (snd example_pmaps)) probe_world =
     Inr (3, 3, False,
          \<lparr>sink = [(1, 1000, example_S1, example_S2, example_Si),
                   (2, 2000, example_S1, take 1 example_S2, example_Si),
                   (3, 3000, [], [], [])],
           stdout = [EvtsAnalyzed 2]\<rparr>) \<and>
   selected_events probe_city (fst example_pmaps) (fst (snd example_pmaps))
     (snd (snd example_pmaps)) (zip [1, 2, 3] [1000, 2000, 3000]) =
     [(1, 1000, example_S1, example_S2, example_Si),
      (2, 2000, example_S1, take 1 example_S2, example_Si),
      (3, 3000, [], [], [])]"
proof -
  let ?W = "\<lparr>sink = [(1, 1000, example_S1, example_S2, example_Si),
                   (2, 2000, example_S1, take 1 example_S2, example_Si),
                   (3::int, 3000::int, [], [], [])],
           stdout = [EvtsAnalyzed 2]\<rparr>"
  have np: "nprint probe_city \<noteq> 0" by (simp add: probe_city_def)
  have nc: "\<forall>k. \<not> max_events_reached probe_city (- 1) k"
    by (simp add: probe_city_def City_max_events_reached_def)
  have m: "fst example_pmaps 3 = None" "fst (snd example_pmaps) 3 = None"
    "snd (snd example_pmaps) 3 = None"
    by (simp_all add: example_pmaps_def)
  have ev: "event_loop probe_city [1, 2, 3] [1000, 2000, 3000] (- 1) 0 0 kr_writer
     (fst example_pmaps) (fst (snd example_pmaps)) (snd (snd example_pmaps)) probe_world =
     Inr (3, 3, False, ?W)"
    by (simp add: event_loop_def event_body_def probe_city_def probe_world_def dict_get_def
        example_pmaps_def City_max_events_reached_def kr_writer_def print_msg_def Let_def)
  note t = missing_keys_are_empty_maps[where self = probe_city and nmax = "- 1"
      and event_numbers = "[1, 2, 3]" and timestamps = "[1000, 2000, 3000]"
      and nin = 0 and nout = 0 and w = probe_world
      and ?S1s.0 = "fst example_pmaps" and ?S2s.0 = "fst (snd example_pmaps)"
      and S2Sis = "snd (snd example_pmaps)",
      THEN conjunct2, THEN conjunct2, THEN conjunct2, THEN conjunct2, THEN conjunct1,
      rule_format, OF conjI, OF np nc]
  from t ev have "sink ?W = sink probe_world @
      selected_events probe_city (fst example_pmaps) (fst (snd example_pmaps))
        (snd (snd example_pmaps)) (zip [1, 2, 3] [1000, 2000, 3000])"
    by auto
  then have s: "selected_events probe_city (fst example_pmaps) (fst (snd example_pmaps))
     (snd (snd example_pmaps)) (zip [1, 2, 3] [1000, 2000, 3000]) =
     [(1, 1000, example_S1, example_S2, example_Si),
      (2, 2000, example_S1, take 1 example_S2, example_Si),
      (3, 3000, [], [], [])]"
    by (simp add: probe_world_def)
  from np m ev s show ?thesis by blast
qed

subsection \<open>Skipped files and failures (C7)\<close>

lemma for_files_skip:
  assumes "load_pmaps io f = Inl ValueError \<or> load_pmaps io f = Inl NoSuchNodeError"
  shows "for_files self io write_kr nmax (f # rest) nin nout w =
         for_files self io write_kr nmax rest nin nout
           (print_msg EmptyFileSkipping (print_msg (Opening f) w))"
  using assms by (auto simp: Let_def)

lemma for_files_abort:
  assumes "load_pmaps io f = Inl e" "e \<noteq> ValueError" "e \<noteq> NoSuchNodeError"
  shows "for_files self io write_kr nmax (f # rest) nin nout w = Inl e"
  using assms by (simp add: Let_def)

lemma print_msg_neq:
  "m \<noteq> m' \<Longrightarrow> print_msg m w1 \<noteq> print_msg m' w2"
proof
  assume ne: "m \<noteq> m'" and eq: "print_msg m w1 = print_msg m' w2"
  from eq have "stdout (print_msg m w1) = stdout (print_msg m' w2)" by simp
  then have "stdout w1 @ [m] = stdout w2 @ [m']" by (simp only: stdout_print_msg)
  then have "m = m'" by simp
  with ne show False by simp
qed

lemma for_files_single_skip_only_if:
  assumes "for_files self io write_kr nmax [f] nin nout w =
           Inr (nin, nout, print_msg EmptyFileSkipping (print_msg (Opening f) w))"
  shows "load_pmaps io f = Inl ValueError \<or> load_pmaps io f = Inl NoSuchNodeError"
  using assms
proof (cases rule: for_files_Cons_Inr)
  case skipped
  then show ?thesis by simp
next
  case (stopped S1s S2s S2Sis ens ts w1)
  from stopped(4) print_msg_neq[of EmptyFileSkipping MaxEventsReached] show ?thesis by blast
next
  case (continued S1s S2s S2Sis ens ts nin1 nout1 w1)
  from continued(4) have "print_msg OK w1 = print_msg EmptyFileSkipping (print_msg (Opening f) w)"
    by simp
  with print_msg_neq[of OK EmptyFileSkipping] show ?thesis by blast
qed

text \<open>
  The loops return whenever \<^verbatim>\<open>nprint\<close> is not 0, every file loads or is recognised as
  empty, and every event index loads.
\<close>

lemma for_events_returns:
  assumes "nprint self \<noteq> 0"
  shows "\<exists>r. for_events self nmax write_kr S1s S2s S2Sis es nin nout w = Inr r"
proof (cases "for_events self nmax write_kr S1s S2s S2Sis es nin nout w")
  case (Inl e)
  from for_events_Inl[OF this] assms show ?thesis by simp
next
  case (Inr r)
  then show ?thesis by blast
qed

lemma for_files_returns:
  assumes np: "nprint self \<noteq> 0"
    and files: "\<forall>f\<in>set files.
      (load_pmaps io f = Inl ValueError \<or> load_pmaps io f = Inl NoSuchNodeError \<or>
       (\<exists>pm. load_pmaps io f = Inr pm)) \<and>
      (\<exists>ix. get_event_numbers_and_timestamps_from_file_name io f = Inr ix)"
  shows "\<exists>r. for_files self io write_kr nmax files nin nout w = Inr r"
  using files
proof (induction files arbitrary: nin nout w)
  case Nil
  show ?case by simp
next
  case (Cons f rest)
  from Cons.prems have rest: "\<forall>f\<in>set rest.
      (load_pmaps io f = Inl ValueError \<or> load_pmaps io f = Inl NoSuchNodeError \<or>
       (\<exists>pm. load_pmaps io f = Inr pm)) \<and>
      (\<exists>ix. get_event_numbers_and_timestamps_from_file_name io f = Inr ix)"
    by simp
  note ih = Cons.IH[OF rest]
  from Cons.prems obtain ens ts where
    ix: "get_event_numbers_and_timestamps_from_file_name io f = Inr (ens, ts)"
    by fastforce
  from Cons.prems consider
    (skip) "load_pmaps io f = Inl ValueError \<or> load_pmaps io f = Inl NoSuchNodeError"
    | (load) S1s S2s S2Sis where "load_pmaps io f = Inr (S1s, S2s, S2Sis)"
    by fastforce
  then show ?case
  proof cases
    case skip
    from ih[of nin nout "print_msg EmptyFileSkipping (print_msg (Opening f) w)"]
    show ?thesis by (simp only: for_files_skip[OF skip])
  next
    case load
    from for_events_returns[OF np]
    obtain a b r w1 where
      ev: "for_events self nmax write_kr S1s S2s S2Sis (zip ens ts) nin nout (print_msg (Opening f) w)
            = Inr (a, b, r, w1)"
      by (metis prod_cases4)
    show ?thesis
    proof (cases r)
      case True
      with load ix ev show ?thesis by (simp add: Let_def event_loop_def)
    next
      case False
      with load ix ev ih[of a b "print_msg OK w1"] show ?thesis
        by (simp add: Let_def event_loop_def)
    qed
  qed
qed

lemma for_files_loaded:
  assumes "load_pmaps io f = Inr (S1s, S2s, S2Sis)"
  shows "for_files self io write_kr nmax (f # rest) nin nout w =
     (case get_event_numbers_and_timestamps_from_file_name io f of
        Inl e \<Rightarrow> Inl e
      | Inr (event_numbers, timestamps) \<Rightarrow>
          (case event_loop self event_numbers timestamps nmax nin nout write_kr S1s S2s S2Sis
                  (print_msg (Opening f) w) of
             Inl e \<Rightarrow> Inl e
           | Inr (nin', nout', reached, w') \<Rightarrow>
               if reached then Inr (nin', nout', print_msg MaxEventsReached w')
               else for_files self io write_kr nmax rest nin' nout' (print_msg OK w')))"
  using assms by (simp add: Let_def)

lemma for_files_prefix:
  assumes np: "nprint self \<noteq> 0" and c: "cap_contract (max_events_reached self)"
  shows "list_all (readable io) pre \<Longrightarrow> 0 \<le> nin \<Longrightarrow>
    nmax < 0 \<or> nin + total_available io pre < nmax \<Longrightarrow>
    \<exists>nin' nout' w'. for_files self io write_kr nmax (pre @ post) nin nout w =
                     for_files self io write_kr nmax post nin' nout' w'"
proof (induction pre arbitrary: nin nout w)
  case Nil
  show ?case by auto
next
  case (Cons f pre)
  from Cons.prems(1) have rf: "readable io f" and rp: "list_all (readable io) pre" by simp_all
  show ?case
  proof (cases "load_pmaps io f")
    case (Inl e)
    with rf have rec: "load_pmaps io f = Inl ValueError \<or> load_pmaps io f = Inl NoSuchNodeError"
      by (auto simp: readable_def)
    then have av: "available io f = 0" by (auto simp: available_def)
    with Cons.prems(3) have cap: "nmax < 0 \<or> nin + total_available io pre < nmax"
      by (simp add: total_available_Cons)
    from Cons.IH[OF rp Cons.prems(2) cap,
        of nout "print_msg EmptyFileSkipping (print_msg (Opening f) w)"]
    show ?thesis by (simp only: append_Cons for_files_skip[OF rec])
  next
    case (Inr pm)
    obtain S1s S2s S2Sis where pm: "pm = (S1s, S2s, S2Sis)" by (cases pm) auto
    from rf Inr obtain ens ts where
      ix: "get_event_numbers_and_timestamps_from_file_name io f = Inr (ens, ts)"
      by (cases "get_event_numbers_and_timestamps_from_file_name io f")
         (auto simp: readable_def)
    have av: "available io f = length (zip ens ts)" using Inr ix by (simp add: available_def)
    from for_events_returns[OF np]
    obtain a b r w1 where
      ev: "for_events self nmax write_kr S1s S2s S2Sis (zip ens ts) nin nout (print_msg (Opening f) w)
            = Inr (a, b, r, w1)"
      by (metis prod_cases4)
    from for_events_count[OF c ev Cons.prems(2)]
    have e1: "nmax < 0 \<longrightarrow> a = nin + int (available io f) \<and> \<not> r"
      and e2: "nin < nmax \<longrightarrow> a = min nmax (nin + int (available io f)) \<and>
                 (r \<longleftrightarrow> nmax \<le> nin + int (available io f))"
      by (simp_all add: av)
    have tn: "0 \<le> total_available io pre" by (rule total_available_nonneg)
    have ar: "a = nin + int (available io f) \<and> \<not> r"
    proof (cases "nmax < 0")
      case True
      with e1 show ?thesis by simp
    next
      case False
      with Cons.prems(3) have lt: "nin + int (available io f) + total_available io pre < nmax"
        by (simp add: total_available_Cons add.assoc)
      with tn have "nin + int (available io f) < nmax" by linarith
      moreover then have "nin < nmax" by linarith
      ultimately show ?thesis using e2 by simp
    qed
    then have a0: "0 \<le> a" using Cons.prems(2) by simp
    have cap: "nmax < 0 \<or> a + total_available io pre < nmax"
      using Cons.prems(3) ar by (simp add: total_available_Cons add.assoc)
    from Cons.IH[OF rp a0 cap, of b "print_msg OK w1"]
    obtain nin' nout' w' where
      "for_files self io write_kr nmax (pre @ post) a b (print_msg OK w1) =
       for_files self io write_kr nmax post nin' nout' w'"
      by blast
    moreover have "for_files self io write_kr nmax ((f # pre) @ post) nin nout w =
      for_files self io write_kr nmax (pre @ post) a b (print_msg OK w1)"
      using Inr pm ix ev ar by (simp add: Let_def event_loop_def)
    ultimately show ?thesis by metis
  qed
qed

text \<open>
  Claim C7. The file loop skips a file, leaving the counters as they are and going on
  with the next file, if and only if \<^verbatim>\<open>load_pmaps\<close> fails on it with \<^verbatim>\<open>ValueError\<close> or
  \<^verbatim>\<open>NoSuchNodeError\<close>, the recognised empty-file condition. A file whose PMaps load is
  not skipped: its event index is read and its events go through the event loop. Any
  other exception of \<^verbatim>\<open>load_pmaps\<close> leaves the loop as that exception; and when the
  files before it are read without an exception and hold fewer events than the cap,
  \<^verbatim>\<open>_main_loop\<close> and \<^verbatim>\<open>run\<close> end in that exception, wherever the file stands among the
  input files.
\<close>

theorem empty_file_skipped_other_failures_abort:
  "(for_files self io write_kr nmax [f] nin nout w =
      Inr (nin, nout, print_msg EmptyFileSkipping (print_msg (Opening f) w))
    \<longleftrightarrow> load_pmaps io f = Inl ValueError \<or> load_pmaps io f = Inl NoSuchNodeError) \<and>
   (load_pmaps io f = Inl ValueError \<or> load_pmaps io f = Inl NoSuchNodeError \<longrightarrow>
      for_files self io write_kr nmax (f # rest) nin nout w =
      for_files self io write_kr nmax rest nin nout
        (print_msg EmptyFileSkipping (print_msg (Opening f) w))) \<and>
   (\<forall>S1s S2s S2Sis. load_pmaps io f = Inr (S1s, S2s, S2Sis) \<longrightarrow>
      for_files self io write_kr nmax (f # rest) nin nout w =
        (case get_event_numbers_and_timestamps_from_file_name io f of
           Inl e \<Rightarrow> Inl e
         | Inr (event_numbers, timestamps) \<Rightarrow>
             (case event_loop self event_numbers timestamps nmax nin nout write_kr S1s S2s S2Sis
                     (print_msg (Opening f) w) of
                Inl e \<Rightarrow> Inl e
              | Inr (nin', nout', reached, w') \<Rightarrow>
                  if reached then Inr (nin', nout', print_msg MaxEventsReached w')
                  else for_files self io write_kr nmax rest nin' nout' (print_msg OK w')))) \<and>
   (\<forall>e. load_pmaps io f = Inl e \<and> e \<noteq> ValueError \<and> e \<noteq> NoSuchNodeError \<longrightarrow>
      for_files self io write_kr nmax (f # rest) nin nout w = Inl e \<and>
      (\<forall>pre. input_files self = pre @ f # rest \<and> list_all (readable io) pre \<and>
             nprint self \<noteq> 0 \<and> cap_contract (max_events_reached self) \<and>
             (nmax < 0 \<or> total_available io pre < nmax) \<longrightarrow>
         main_loop self io write_kr nmax w = Inl e \<and> run self io nmax w = Inl e))"
proof (intro conjI allI impI iffI)
  assume "for_files self io write_kr nmax [f] nin nout w =
      Inr (nin, nout, print_msg EmptyFileSkipping (print_msg (Opening f) w))"
  then show "load_pmaps io f = Inl ValueError \<or> load_pmaps io f = Inl NoSuchNodeError"
    by (rule for_files_single_skip_only_if)
next
  assume "load_pmaps io f = Inl ValueError \<or> load_pmaps io f = Inl NoSuchNodeError"
  from for_files_skip[OF this, of self write_kr nmax "[]" nin nout w]
  show "for_files self io write_kr nmax [f] nin nout w =
      Inr (nin, nout, print_msg EmptyFileSkipping (print_msg (Opening f) w))"
    by simp
next
  assume "load_pmaps io f = Inl ValueError \<or> load_pmaps io f = Inl NoSuchNodeError"
  then show "for_files self io write_kr nmax (f # rest) nin nout w =
      for_files self io write_kr nmax rest nin nout
        (print_msg EmptyFileSkipping (print_msg (Opening f) w))"
    by (rule for_files_skip)
next
  fix S1s S2s S2Sis
  assume "load_pmaps io f = Inr (S1s, S2s, S2Sis)"
  then show "for_files self io write_kr nmax (f # rest) nin nout w =
        (case get_event_numbers_and_timestamps_from_file_name io f of
           Inl e \<Rightarrow> Inl e
         | Inr (event_numbers, timestamps) \<Rightarrow>
             (case event_loop self event_numbers timestamps nmax nin nout write_kr S1s S2s S2Sis
                     (print_msg (Opening f) w) of
                Inl e \<Rightarrow> Inl e
              | Inr (nin', nout', reached, w') \<Rightarrow>
                  if reached then Inr (nin', nout', print_msg MaxEventsReached w')
                  else for_files self io write_kr nmax rest nin' nout' (print_msg OK w')))"
    by (rule for_files_loaded)
next
  fix e
  assume a: "load_pmaps io f = Inl e \<and> e \<noteq> ValueError \<and> e \<noteq> NoSuchNodeError"
  then show "for_files self io write_kr nmax (f # rest) nin nout w = Inl e"
    by (simp add: for_files_abort)
next
  fix e pre
  assume a: "load_pmaps io f = Inl e \<and> e \<noteq> ValueError \<and> e \<noteq> NoSuchNodeError"
    and b: "input_files self = pre @ f # rest \<and> list_all (readable io) pre \<and>
             nprint self \<noteq> 0 \<and> cap_contract (max_events_reached self) \<and>
             (nmax < 0 \<or> total_available io pre < nmax)"
  from a have ab: "\<And>wk n0 m0 w0. for_files self io wk nmax (f # rest) n0 m0 w0 = Inl e"
    by (simp add: for_files_abort)
  from b have i: "input_files self = pre @ f # rest" and rp: "list_all (readable io) pre"
    and np: "nprint self \<noteq> 0" and c: "cap_contract (max_events_reached self)"
    and cap: "nmax < 0 \<or> 0 + total_available io pre < nmax"
    by simp_all
  have pf: "for_files self io wk nmax (pre @ f # rest) 0 0 w0 = Inl e" for wk w0
  proof -
    from for_files_prefix[OF np c rp _ cap, of wk "f # rest" 0 w0]
    obtain n1 m1 w1 where "for_files self io wk nmax (pre @ f # rest) 0 0 w0 =
        for_files self io wk nmax (f # rest) n1 m1 w1"
      by auto
    then show ?thesis by (simp only: ab)
  qed
  show "main_loop self io write_kr nmax w = Inl e"
    by (simp only: main_loop_def i pf)
  show "run self io nmax w = Inl e"
    by (simp add: run_def main_loop_def i pf Let_def del: for_files.simps)
qed

lemma example_readable:
  "readable example_io ''a.h5''" "readable example_io ''empty.h5''"
  "\<not> readable example_io ''broken.h5''"
  by (simp_all add: readable_def example_io_def example_load_def example_index_def)

theorem empty_file_skipped_other_failures_abort_witness:
  "load_pmaps example_io ''empty.h5'' = Inl ValueError \<and>
   for_files (example_city [] 1) example_io kr_writer (- 1) [''empty.h5'', ''a.h5''] 0 0
     example_world =
     Inr (3, 1,
          \<lparr>sink = [\<lparr>event = 2, timestamp = 2000, S1_id = 0, S2_ids = [0], drifts = [400]\<rparr>],
           stdout = [Opening ''empty.h5'', EmptyFileSkipping, Opening ''a.h5'', OK]\<rparr>) \<and>
   for_files (example_city [] 1) example_io kr_writer (- 1) [''a.h5''] 0 0
     (print_msg EmptyFileSkipping (print_msg (Opening ''empty.h5'') example_world)) =
     Inr (3, 1,
          \<lparr>sink = [\<lparr>event = 2, timestamp = 2000, S1_id = 0, S2_ids = [0], drifts = [400]\<rparr>],
           stdout = [Opening ''empty.h5'', EmptyFileSkipping, Opening ''a.h5'', OK]\<rparr>) \<and>
   load_pmaps example_io ''broken.h5'' = Inl OtherException \<and>
   input_files (example_city [''a.h5'', ''empty.h5'', ''broken.h5'', ''b.h5''] 1) =
     [''a.h5'', ''empty.h5''] @ ''broken.h5'' # [''b.h5''] \<and>
   list_all (readable example_io) [''a.h5'', ''empty.h5''] \<and>
   run (example_city [''a.h5'', ''empty.h5'', ''broken.h5'', ''b.h5''] 1) example_io (- 1)
     example_world = Inl OtherException"
proof -
  let ?W = "\<lparr>sink = [\<lparr>event = 2, timestamp = 2000, S1_id = 0, S2_ids = [0], drifts = [400]\<rparr>],
           stdout = [Opening ''empty.h5'', EmptyFileSkipping, Opening ''a.h5'', OK]\<rparr>"
  let ?c = "example_city [''a.h5'', ''empty.h5'', ''broken.h5'', ''b.h5''] 1"
  have l1: "load_pmaps example_io ''empty.h5'' = Inl ValueError"
    by (simp add: example_io_def example_load_def)
  have l2: "load_pmaps example_io ''broken.h5'' = Inl OtherException"
    by (simp add: example_io_def example_load_def)
  have i: "input_files ?c = [''a.h5'', ''empty.h5''] @ ''broken.h5'' # [''b.h5'']"
    by (simp add: example_city_def Dorothea_def)
  have rp: "list_all (readable example_io) [''a.h5'', ''empty.h5'']"
    by (simp add: example_readable)
  have np: "nprint ?c \<noteq> 0" by (simp add: example_city_def Dorothea_def)
  have c: "cap_contract (max_events_reached ?c)"
    by (simp add: example_city_def Dorothea_def cap_contract_def City_max_events_reached_def)
  have ev: "for_files (example_city [] 1) example_io kr_writer (- 1) [''a.h5''] 0 0
     (print_msg EmptyFileSkipping (print_msg (Opening ''empty.h5'') example_world)) = Inr (3, 1, ?W)"
    by (simp add: ex_defs)
  note t = empty_file_skipped_other_failures_abort
  from t[where self = "example_city [] 1" and io = example_io and write_kr = kr_writer
      and nmax = "- 1" and f = "''empty.h5''" and nin = 0 and nout = 0 and w = example_world
      and rest = "[''a.h5'']", THEN conjunct2, THEN conjunct1, rule_format, OF disjI1, OF l1]
  have a: "for_files (example_city [] 1) example_io kr_writer (- 1) [''empty.h5'', ''a.h5''] 0 0
     example_world = Inr (3, 1, ?W)"
    by (simp only: ev)
  from t[where self = ?c and io = example_io and write_kr = kr_writer
      and nmax = "- 1" and f = "''broken.h5''" and nin = 0 and nout = 0 and w = example_world
      and rest = "[''b.h5'']", THEN conjunct2, THEN conjunct2, THEN conjunct2, rule_format,
      of OtherException, THEN conjunct2, rule_format, of "[''a.h5'', ''empty.h5'']"]
    l2 i rp np c
  have b: "run ?c example_io (- 1) example_world = Inl OtherException"
    by simp
  from l1 a ev l2 i rp b show ?thesis by blast
qed

subsection \<open>The event cap (C4)\<close>

lemma cap_contract_City: "cap_contract City_max_events_reached"
  by (simp add: cap_contract_def City_max_events_reached_def)

text \<open>
  Claim C4, amended to \<open>nmax \<ge> 1\<close>. Let \<^verbatim>\<open>max_events_reached\<close> keep its contract and the
  main loop return. For \<open>nmax \<ge> 1\<close> the run counts exactly
  \<open>min(nmax, total available events)\<close> input events; the files it opened are the first
  \<open>k\<close> input files, for a \<open>k\<close> such that the run stopped short of the last file
  only with \<open>nevt_in = nmax\<close>, and such that the files before the \<open>k\<close>-th held fewer
  than \<open>nmax\<close> events: nothing is consumed and no file is opened once the cap is
  reached. For \<open>nmax < 0\<close> every event of every file is counted and every file is opened.
\<close>

theorem event_cap_from_one:
  "cap_contract (max_events_reached self) \<and>
   main_loop self io kr_writer nmax w = Inr (nin, nout, w') \<longrightarrow>
   (1 \<le> nmax \<longrightarrow>
      nin = min nmax (total_available io (input_files self)) \<and>
      (\<exists>k\<le>length (input_files self).
         opened_files (stdout w') = opened_files (stdout w) @ take k (input_files self) \<and>
         (k < length (input_files self) \<longrightarrow> nin = nmax) \<and>
         (0 < k \<longrightarrow> total_available io (take (k - 1) (input_files self)) < nmax))) \<and>
   (nmax < 0 \<longrightarrow>
      nin = total_available io (input_files self) \<and>
      opened_files (stdout w') = opened_files (stdout w) @ input_files self)"
proof (intro impI conjI)
  assume a: "cap_contract (max_events_reached self) \<and>
   main_loop self io kr_writer nmax w = Inr (nin, nout, w')" and n: "1 \<le> nmax"
  from a have c: "cap_contract (max_events_reached self)"
    and r: "for_files self io kr_writer nmax (input_files self) 0 0 w = Inr (nin, nout, w')"
    by (simp_all add: main_loop_def)
  from n have lt: "(0::int) < nmax" by simp
  from for_files_count_pos[OF c r _ lt]
  obtain k where m: "nin = min nmax (0 + total_available io (input_files self))"
    and o: "opened_files (stdout w') = opened_files (stdout w) @ take k (input_files self)"
    and s: "stops_at io nmax 0 nin (input_files self) k"
    by auto
  from m show "nin = min nmax (total_available io (input_files self))" by simp
  from s have "k \<le> length (input_files self) \<and>
         (k < length (input_files self) \<longrightarrow> nin = nmax) \<and>
         (0 < k \<longrightarrow> total_available io (take (k - 1) (input_files self)) < nmax)"
    by (simp add: stops_at_def)
  with o show "\<exists>k\<le>length (input_files self).
         opened_files (stdout w') = opened_files (stdout w) @ take k (input_files self) \<and>
         (k < length (input_files self) \<longrightarrow> nin = nmax) \<and>
         (0 < k \<longrightarrow> total_available io (take (k - 1) (input_files self)) < nmax)"
    by blast
next
  assume a: "cap_contract (max_events_reached self) \<and>
   main_loop self io kr_writer nmax w = Inr (nin, nout, w')" and n: "nmax < 0"
  from a have c: "cap_contract (max_events_reached self)"
    and r: "for_files self io kr_writer nmax (input_files self) 0 0 w = Inr (nin, nout, w')"
    by (simp_all add: main_loop_def)
  from for_files_count_neg[OF c n r]
  show "nin = total_available io (input_files self)"
    and "opened_files (stdout w') = opened_files (stdout w) @ input_files self"
    by simp_all
qed

lemma example_available:
  "available example_io ''a.h5'' = 3" "available example_io ''b.h5'' = 3"
  "available example_io ''c.h5'' = 3" "available example_io ''empty.h5'' = 0"
  by (simp_all add: available_def example_io_def example_load_def example_index_def)

theorem event_cap_from_one_witness:
  "cap_contract (max_events_reached (example_city [''a.h5'', ''empty.h5'', ''b.h5'', ''c.h5''] 2)) \<and>
   main_loop (example_city [''a.h5'', ''empty.h5'', ''b.h5'', ''c.h5''] 2) example_io kr_writer 5
     example_world =
     Inr (5, 4,
       \<lparr>sink = [\<lparr>event = 1, timestamp = 1000, S1_id = 0, S2_ids = [0, 1], drifts = [400, 600]\<rparr>,
                \<lparr>event = 2, timestamp = 2000, S1_id = 0, S2_ids = [0], drifts = [400]\<rparr>,
                \<lparr>event = 1, timestamp = 1000, S1_id = 0, S2_ids = [0, 1], drifts = [400, 600]\<rparr>,
                \<lparr>event = 2, timestamp = 2000, S1_id = 0, S2_ids = [0], drifts = [400]\<rparr>],
        stdout = [Opening ''a.h5'', OK, Opening ''empty.h5'', EmptyFileSkipping,
                  Opening ''b.h5'', MaxEventsReached]\<rparr>) \<and>
   (5::int) = min 5 (total_available example_io [''a.h5'', ''empty.h5'', ''b.h5'', ''c.h5'']) \<and>
   total_available example_io [''a.h5'', ''empty.h5'', ''b.h5'', ''c.h5''] = 9"
proof -
  let ?c = "example_city [''a.h5'', ''empty.h5'', ''b.h5'', ''c.h5''] 2"
  let ?w = "\<lparr>sink = [\<lparr>event = 1, timestamp = 1000, S1_id = 0, S2_ids = [0, 1], drifts = [400, 600]\<rparr>,
                \<lparr>event = 2, timestamp = 2000, S1_id = 0, S2_ids = [0], drifts = [400]\<rparr>,
                \<lparr>event = 1, timestamp = 1000, S1_id = 0, S2_ids = [0, 1], drifts = [400, 600]\<rparr>,
                \<lparr>event = 2, timestamp = 2000, S1_id = 0, S2_ids = [0], drifts = [400]\<rparr>],
        stdout = [Opening ''a.h5'', OK, Opening ''empty.h5'', EmptyFileSkipping,
                  Opening ''b.h5'', MaxEventsReached]\<rparr>"
  have c: "cap_contract (max_events_reached ?c)"
    by (simp add: example_city_def Dorothea_def cap_contract_City)
  have i: "input_files ?c = [''a.h5'', ''empty.h5'', ''b.h5'', ''c.h5'']"
    by (simp add: example_city_def Dorothea_def)
  have r: "main_loop ?c example_io kr_writer 5 example_world = Inr (5, 4, ?w)"
    by (simp add: ex_defs)
  have t: "total_available example_io [''a.h5'', ''empty.h5'', ''b.h5'', ''c.h5''] = 9"
    by (simp add: total_available_def example_available)
  from event_cap_from_one[of ?c example_io 5 example_world 5 4 ?w] c r
  have "(5::int) = min 5 (total_available example_io (input_files ?c))" by simp
  with i have "(5::int) = min 5 (total_available example_io [''a.h5'', ''empty.h5'', ''b.h5'', ''c.h5''])"
    by simp
  with c r t show ?thesis by blast
qed

text \<open>
  The claim as stated includes \<open>nmax = 0\<close>, where it fails: the cap is tested after an
  event has been counted, so a run with \<open>nmax = 0\<close> over one file of three events counts
  one event, not \<open>min(0, 3) = 0\<close>.
\<close>

theorem event_cap_zero_counterexample:
  "main_loop (example_city [''a.h5''] 1) example_io kr_writer 0 example_world =
     Inr (1, 0, \<lparr>sink = [], stdout = [Opening ''a.h5'', MaxEventsReached]\<rparr>) \<and>
   (1::int) \<noteq> min 0 (total_available example_io [''a.h5''])"
proof -
  have "main_loop (example_city [''a.h5''] 1) example_io kr_writer 0 example_world =
     Inr (1, 0, \<lparr>sink = [], stdout = [Opening ''a.h5'', MaxEventsReached]\<rparr>)"
    by (simp add: ex_defs)
  moreover have "(1::int) \<noteq> min 0 (total_available example_io [''a.h5''])"
    by (simp add: total_available_def example_available)
  ultimately show ?thesis by blast
qed

subsection \<open>The two summaries (C6, C10)\<close>

lemma run_Inr:
  assumes "run self io nmax w = Inr (nin, nout, w')"
  shows "0 < nin \<and> 0 \<le> nout \<and> nout \<le> nin \<and>
         (\<exists>w1. main_loop self io kr_writer nmax ((print_msg (DisplayIOInfo nmax) w)\<lparr>sink := []\<rparr>)
                  = Inr (nin, nout, w1) \<and>
               w' = print_msg (RunSummary nin nout (real_of_int nout / real_of_int nin)) w1)"
proof (cases "main_loop self io kr_writer nmax ((print_msg (DisplayIOInfo nmax) w)\<lparr>sink := []\<rparr>)")
  case (Inl e)
  with assms show ?thesis by (simp add: run_def Let_def)
next
  case (Inr res)
  obtain a b w1 where res: "res = (a, b, w1)" by (cases res) auto
  from Inr res have "for_files self io kr_writer nmax (input_files self) 0 0
      ((print_msg (DisplayIOInfo nmax) w)\<lparr>sink := []\<rparr>) = Inr (a, b, w1)"
    by (simp add: main_loop_def)
  from for_files_inv[OF this] have inv: "0 \<le> b" "b \<le> a" "0 \<le> a" by simp_all
  from assms Inr res have ne: "a \<noteq> 0"
    and eq: "nin = a" "nout = b"
            "w' = print_msg (RunSummary a b (real_of_int b / real_of_int a)) w1"
    by (auto simp: run_def Let_def split: if_splits)
  from inv ne have "0 < a" by simp
  with inv eq Inr res show ?thesis by simp
qed

lemma run_no_event:
  assumes "main_loop self io kr_writer nmax ((print_msg (DisplayIOInfo nmax) w)\<lparr>sink := []\<rparr>)
             = Inr (0, nout, w1)"
  shows "run self io nmax w = Inl ZeroDivisionError"
  using assms by (simp add: run_def Let_def)

text \<open>
  Claim C6. The summary of \<^verbatim>\<open>run\<close> formats \<^verbatim>\<open>nevt_out / nevt_in\<close> with no guard. A run
  that consumes no event, here one with no input file and one whose two files are both
  skipped as empty, does not complete: it raises \<^verbatim>\<open>ZeroDivisionError\<close> at the summary. (For
  \<open>nevt_in > 0\<close> the printed ratio is the quotient, see \<open>run_Inr\<close>.)
\<close>

theorem run_ratio_unguarded:
  "run (example_city [] 1) example_io 10 example_world = Inl ZeroDivisionError \<and>
   run (example_city [''empty.h5'', ''nonode.h5''] 1) example_io 10 example_world
     = Inl ZeroDivisionError"
  by (simp add: run_def ex_defs)

text \<open>
  Claim C10. The last line of \<^verbatim>\<open>DOROTHEA\<close> computes \<^verbatim>\<open>dt / nevt_in\<close> with no guard: it
  raises \<^verbatim>\<open>ZeroDivisionError\<close> for \<open>nevt_in = 0\<close> and prints the quotient otherwise. A
  driver invocation that returns normally had a run with \<open>nevt_in > 0\<close> and printed
  \<open>dt / nevt_in\<close>; when the main loop consumes no event the invocation ends in
  \<^verbatim>\<open>ZeroDivisionError\<close>.
\<close>

theorem driver_timing_unguarded:
  "timing_summary 0 dt = Inl ZeroDivisionError \<and>
   (nin \<noteq> 0 \<longrightarrow> timing_summary nin dt = Inr (DriverSummary nin dt (dt / real_of_int nin))) \<and>
   (\<forall>w'. DOROTHEA CFP u io t0 t1 w = Inr w' \<longrightarrow>
      (\<exists>nevt_in nevt_out w1.
         run (dorothea_of CFP u io) io (if \<not> RUN_ALL CFP then NEVENTS CFP else - 1) w
           = Inr (nevt_in, nevt_out, w1) \<and>
         0 < nevt_in \<and>
         w' = print_msg (DriverSummary nevt_in (t1 - t0) ((t1 - t0) / real_of_int nevt_in)) w1)) \<and>
   (\<forall>nevt_out w1.
      main_loop (dorothea_of CFP u io) io kr_writer (if \<not> RUN_ALL CFP then NEVENTS CFP else - 1)
        ((print_msg (DisplayIOInfo (if \<not> RUN_ALL CFP then NEVENTS CFP else - 1)) w)\<lparr>sink := []\<rparr>)
        = Inr (0, nevt_out, w1) \<longrightarrow>
      DOROTHEA CFP u io t0 t1 w = Inl ZeroDivisionError)"
proof (intro conjI allI impI)
  show "timing_summary 0 dt = Inl ZeroDivisionError" by (simp add: timing_summary_def)
next
  assume "nin \<noteq> 0"
  then show "timing_summary nin dt = Inr (DriverSummary nin dt (dt / real_of_int nin))"
    by (simp add: timing_summary_def)
next
  fix w'
  let ?n = "if \<not> RUN_ALL CFP then NEVENTS CFP else - 1"
  assume d: "DOROTHEA CFP u io t0 t1 w = Inr w'"
  show "\<exists>nevt_in nevt_out w1.
         run (dorothea_of CFP u io) io ?n w = Inr (nevt_in, nevt_out, w1) \<and>
         0 < nevt_in \<and>
         w' = print_msg (DriverSummary nevt_in (t1 - t0) ((t1 - t0) / real_of_int nevt_in)) w1"
  proof (cases "run (dorothea_of CFP u io) io ?n w")
    case (Inl e)
    with d show ?thesis by (simp add: DOROTHEA_def Let_def)
  next
    case (Inr res)
    obtain a b w1 where res: "res = (a, b, w1)" by (cases res) auto
    from run_Inr[OF Inr[unfolded res]] have pos: "0 < a" by simp
    with d Inr res
    have "w' = print_msg (DriverSummary a (t1 - t0) ((t1 - t0) / real_of_int a)) w1"
      by (simp add: DOROTHEA_def Let_def timing_summary_def)
    with Inr res pos show ?thesis by blast
  qed
next
  fix nevt_out w1
  let ?n = "if \<not> RUN_ALL CFP then NEVENTS CFP else - 1"
  assume "main_loop (dorothea_of CFP u io) io kr_writer ?n
        ((print_msg (DisplayIOInfo ?n) w)\<lparr>sink := []\<rparr>) = Inr (0, nevt_out, w1)"
  from run_no_event[OF this]
  show "DOROTHEA CFP u io t0 t1 w = Inl ZeroDivisionError"
    by (simp add: DOROTHEA_def Let_def)
qed

lemma example_sorted_glob: "sort (glob example_io (FILE_IN example_config)) = [''a.h5'', ''b.h5'']"
  by (simp add: example_io_def example_glob_def)

lemma dorothea_of_example:
  "dorothea_of example_config example_units example_io =
   Dorothea 0 [''a.h5'', ''b.h5''] ''out.h5'' ''ZLIB4'' 10000 1
     \<lparr>S1_Emin = 0, S1_Emax = Finite 100, S1_Lmin = 0, S1_Lmax = Infinity,
      S1_Hmin = 0, S1_Hmax = Infinity, S1_Ethr = 0\<rparr>
     \<lparr>S2_Nmax = 1, S2_Emin = 0, S2_Emax = Finite 100, S2_Lmin = 0, S2_Lmax = Infinity,
      S2_Hmin = 0, S2_Hmax = Infinity, S2_NSIPMmin = 1, S2_NSIPMmax = Finite 10, S2_Ethr = 0\<rparr>"
  unfolding dorothea_of_def example_sorted_glob
  by (simp add: example_config_def example_units_def)

theorem driver_timing_unguarded_witness:
  "DOROTHEA example_config example_units example_io 10 18 example_world =
     Inr \<lparr>sink = [\<lparr>event = 2, timestamp = 2000, S1_id = 0, S2_ids = [0], drifts = [400]\<rparr>],
          stdout = [DisplayIOInfo 4, Opening ''a.h5'', OK, Opening ''b.h5'', MaxEventsReached,
                    RunSummary 4 1 (1 / 4), DriverSummary 4 8 2]\<rparr> \<and>
   run (dorothea_of example_config example_units example_io) example_io 4 example_world =
     Inr (4, 1,
       \<lparr>sink = [\<lparr>event = 2, timestamp = 2000, S1_id = 0, S2_ids = [0], drifts = [400]\<rparr>],
        stdout = [DisplayIOInfo 4, Opening ''a.h5'', OK, Opening ''b.h5'', MaxEventsReached,
                  RunSummary 4 1 (1 / 4)]\<rparr>) \<and>
   (0::int) < 4 \<and> (4::int) \<noteq> 0 \<and>
   timing_summary 4 8 = Inr (DriverSummary 4 8 2)"
proof -
  have r: "run (dorothea_of example_config example_units example_io) example_io 4 example_world =
     Inr (4, 1,
       \<lparr>sink = [\<lparr>event = 2, timestamp = 2000, S1_id = 0, S2_ids = [0], drifts = [400]\<rparr>],
        stdout = [DisplayIOInfo 4, Opening ''a.h5'', OK, Opening ''b.h5'', MaxEventsReached,
                  RunSummary 4 1 (1 / 4)]\<rparr>)"
    unfolding dorothea_of_example
    by (simp add: run_def ex_defs)
  have n: "(if \<not> RUN_ALL example_config then NEVENTS example_config else - 1) = 4"
    by (simp add: example_config_def)
  from driver_timing_unguarded[of 8 4 example_config example_units example_io 10 18 example_world]
  have t: "timing_summary 4 8 = Inr (DriverSummary 4 8 2)" by simp
  have d: "DOROTHEA example_config example_units example_io 10 18 example_world =
     Inr \<lparr>sink = [\<lparr>event = 2, timestamp = 2000, S1_id = 0, S2_ids = [0], drifts = [400]\<rparr>],
          stdout = [DisplayIOInfo 4, Opening ''a.h5'', OK, Opening ''b.h5'', MaxEventsReached,
                    RunSummary 4 1 (1 / 4), DriverSummary 4 8 2]\<rparr>"
    by (simp add: DOROTHEA_def Let_def n r t print_msg_def)
  from d r t show ?thesis by simp
qed

subsection \<open>S1 multiplicity (C1)\<close>

lemma select_event_Dorothea:
  "select_event (Dorothea rn fi fo c np dv s1 s2) =
   S12SelectorCity_select_event dv (S1_criteria_of s1) (S2_criteria_of s2)"
  by (simp add: Dorothea_def)

lemma filter_peaks_S1_multiplicity:
  "fst (filter_peaks pm (S1_criteria_of s1)) \<longleftrightarrow> length pm = 1"
  by (auto simp: filter_peaks_def S1_criteria_of_def)

lemma select_event_S1_multiplicity:
  assumes "length S1 \<noteq> 1"
  shows "S12SelectorCity_select_event dv (S1_criteria_of s1) c2 n t S1 S2 Si = None"
  using assms
  by (simp add: S12SelectorCity_select_event_def Let_def filter_peaks_S1_multiplicity)

text \<open>
  Claim C1. The constructor fixes the S1 multiplicity bounds to \<open>[1, 1]\<close>, whatever its
  arguments. An event whose raw S1 map has no peak, or two or more, is rejected by
  \<^verbatim>\<open>select_event\<close> whatever its S2 map and sensor-charge map hold; in the event loop such
  an event is counted as input only: \<open>nevt_out\<close> stays and nothing is written.
\<close>

theorem s1_multiplicity_is_one:
  "Nmin (S1_criteria_of s1) = 1 \<and> Nmax (S1_criteria_of s1) = 1 \<and>
   (length S1 \<noteq> 1 \<longrightarrow>
      select_event (Dorothea rn fi fo c np dv s1 s2) evt_number evt_time S1 S2 Si = None) \<and>
   (length (dict_get S1s evt_number) \<noteq> 1 \<and> np \<noteq> 0 \<longrightarrow>
      (\<exists>w'. event_body (Dorothea rn fi fo c np dv s1 s2) nmax kr_writer S1s S2s S2Sis
               evt_number evt_time nin nout w
             = Inr (nin + 1, nout, City_max_events_reached nmax (nin + 1), w') \<and>
            sink w' = sink w))"
proof (intro conjI impI)
  show "Nmin (S1_criteria_of s1) = 1" "Nmax (S1_criteria_of s1) = 1"
    by (simp_all add: S1_criteria_of_def)
next
  assume "length S1 \<noteq> 1"
  then show "select_event (Dorothea rn fi fo c np dv s1 s2) evt_number evt_time S1 S2 Si = None"
    by (simp add: select_event_Dorothea select_event_S1_multiplicity)
next
  let ?D = "Dorothea rn fi fo c np dv s1 s2"
  assume a: "length (dict_get S1s evt_number) \<noteq> 1 \<and> np \<noteq> 0"
  then have s: "select_event ?D evt_number evt_time (dict_get S1s evt_number)
      (dict_get S2s evt_number) (dict_get S2Sis evt_number) = None"
    by (simp add: select_event_Dorothea select_event_S1_multiplicity)
  have f: "nprint ?D = np" "max_events_reached ?D = City_max_events_reached"
    by (simp_all add: Dorothea_def)
  let ?w = "if (nin + 1) mod np = 0 then print_msg (EvtsAnalyzed (nin + 1)) w else w"
  have "event_body ?D nmax kr_writer S1s S2s S2Sis evt_number evt_time nin nout w
          = Inr (nin + 1, nout, City_max_events_reached nmax (nin + 1), ?w)"
    using a by (simp add: event_body_def Let_def s f)
  moreover have "sink ?w = sink w" by (simp add: print_msg_def)
  ultimately show "\<exists>w'. event_body ?D nmax kr_writer S1s S2s S2Sis evt_number evt_time nin nout w
             = Inr (nin + 1, nout, City_max_events_reached nmax (nin + 1), w') \<and>
            sink w' = sink w"
    by blast
qed

theorem s1_multiplicity_is_one_witness:
  "length ([] :: peak_map) \<noteq> 1 \<and> length (example_S1 @ example_S1) \<noteq> 1 \<and>
   select_event (example_city [] 1) 2 2000 [] (take 1 example_S2) example_Si = None \<and>
   select_event (example_city [] 1) 2 2000 (example_S1 @ example_S1) (take 1 example_S2)
     example_Si = None \<and>
   select_event (example_city [] 1) 2 2000 example_S1 (take 1 example_S2) example_Si =
     Some \<lparr>event = 2, timestamp = 2000, S1_id = 0, S2_ids = [0], drifts = [400]\<rparr>"
proof -
  note t = s1_multiplicity_is_one[of S1_defaults _ 0 "[]" "''out.h5''" "''ZLIB4''" 10000 1
      "S2_defaults\<lparr>S2_Nmax := 1\<rparr>" 2 2000 "take 1 example_S2" example_Si]
  have l: "length ([] :: peak_map) \<noteq> 1" "length (example_S1 @ example_S1) \<noteq> 1"
    by (simp_all add: example_S1_def)
  from t[of "[]"] l(1)
  have a: "select_event (example_city [] 1) 2 2000 [] (take 1 example_S2) example_Si = None"
    unfolding example_city_def by blast
  from t[of "example_S1 @ example_S1"] l(2)
  have b: "select_event (example_city [] 1) 2 2000 (example_S1 @ example_S1) (take 1 example_S2)
     example_Si = None"
    unfolding example_city_def by blast
  have c: "select_event (example_city [] 1) 2 2000 example_S1 (take 1 example_S2) example_Si =
     Some \<lparr>event = 2, timestamp = 2000, S1_id = 0, S2_ids = [0], drifts = [400]\<rparr>"
    by (simp add: ex_defs)
  from l a b c show ?thesis by blast
qed

subsection \<open>Inclusive bounds (C9)\<close>

lemma filter_peaks_passing:
  "set (snd (filter_peaks pm c)) =
   (if fst (filter_peaks pm c) then {e \<in> set pm. peak_passes c (snd e)} else {})"
  by (auto simp: filter_peaks_def)

text \<open>
  Claim C9. The per-peak check keeps a peak iff its energy, width, height and (where the
  criteria have a sensor-count range, that is for S2) sensor count each lie within their
  bounds, both ends included. An upper bound equal to the peak's own value rejects no
  more than \<^verbatim>\<open>np.inf\<close> does; an upper bound below the value by any positive amount rejects
  the peak, as does a value below the lower bound. The peaks that pass PeakFilter are the
  peaks of the map that pass this check.
\<close>

theorem peak_bounds_inclusive:
  "(peak_passes c (p, qs) \<longleftrightarrow>
      Emin c \<le> energy (Ethr c) p \<and> le_bound (energy (Ethr c) p) (Emax c) \<and>
      Lmin c \<le> width p \<and> le_bound (width p) (Lmax c) \<and>
      Hmin c \<le> height p \<and> le_bound (height p) (Hmax c) \<and>
      (case NSIPM c of
         None \<Rightarrow> True
       | Some (lo, hi) \<Rightarrow> lo \<le> n_sensors (Ethr c) qs \<and> le_bound (n_sensors (Ethr c) qs) hi)) \<and>
   (le_bound x (Finite m) \<longleftrightarrow> x \<le> m) \<and> le_bound x Infinity \<and>
   (Emax c = Finite (energy (Ethr c) p) \<longrightarrow>
      (peak_passes c (p, qs) \<longleftrightarrow> peak_passes (c\<lparr>Emax := Infinity\<rparr>) (p, qs))) \<and>
   (Lmax c = Finite (width p) \<longrightarrow>
      (peak_passes c (p, qs) \<longleftrightarrow> peak_passes (c\<lparr>Lmax := Infinity\<rparr>) (p, qs))) \<and>
   (Hmax c = Finite (height p) \<longrightarrow>
      (peak_passes c (p, qs) \<longleftrightarrow> peak_passes (c\<lparr>Hmax := Infinity\<rparr>) (p, qs))) \<and>
   (NSIPM c = Some (lo, Finite (n_sensors (Ethr c) qs)) \<longrightarrow>
      (peak_passes c (p, qs) \<longleftrightarrow> peak_passes (c\<lparr>NSIPM := Some (lo, Infinity)\<rparr>) (p, qs))) \<and>
   (\<forall>eps>0. Emax c = Finite (energy (Ethr c) p - eps) \<longrightarrow> \<not> peak_passes c (p, qs)) \<and>
   (\<forall>eps>0. Lmax c = Finite (width p - eps) \<longrightarrow> \<not> peak_passes c (p, qs)) \<and>
   (\<forall>eps>0. Hmax c = Finite (height p - eps) \<longrightarrow> \<not> peak_passes c (p, qs)) \<and>
   (\<forall>k>0. NSIPM c = Some (lo, Finite (n_sensors (Ethr c) qs - k)) \<longrightarrow>
      \<not> peak_passes c (p, qs)) \<and>
   (energy (Ethr c) p < Emin c \<or> width p < Lmin c \<or> height p < Hmin c \<longrightarrow>
      \<not> peak_passes c (p, qs)) \<and>
   (\<forall>hi. NSIPM c = Some (lo, hi) \<and> n_sensors (Ethr c) qs < lo \<longrightarrow> \<not> peak_passes c (p, qs)) \<and>
   set (snd (filter_peaks pm c)) =
     (if fst (filter_peaks pm c) then {e \<in> set pm. peak_passes c (snd e)} else {})"
proof -
  have a: "peak_passes c (p, qs) \<longleftrightarrow>
      Emin c \<le> energy (Ethr c) p \<and> le_bound (energy (Ethr c) p) (Emax c) \<and>
      Lmin c \<le> width p \<and> le_bound (width p) (Lmax c) \<and>
      Hmin c \<le> height p \<and> le_bound (height p) (Hmax c) \<and>
      (case NSIPM c of
         None \<Rightarrow> True
       | Some (lo, hi) \<Rightarrow> lo \<le> n_sensors (Ethr c) qs \<and> le_bound (n_sensors (Ethr c) qs) hi)"
    by (cases "NSIPM c") (auto simp: peak_passes_def)
  have b: "le_bound x (Finite m) \<longleftrightarrow> x \<le> m" "le_bound x Infinity" by simp_all
  have u1: "Emax c = Finite (energy (Ethr c) p) \<longrightarrow>
      (peak_passes c (p, qs) \<longleftrightarrow> peak_passes (c\<lparr>Emax := Infinity\<rparr>) (p, qs))"
    by (simp add: a peak_passes_def split: option.splits)
  have u2: "Lmax c = Finite (width p) \<longrightarrow>
      (peak_passes c (p, qs) \<longleftrightarrow> peak_passes (c\<lparr>Lmax := Infinity\<rparr>) (p, qs))"
    by (simp add: a peak_passes_def split: option.splits)
  have u3: "Hmax c = Finite (height p) \<longrightarrow>
      (peak_passes c (p, qs) \<longleftrightarrow> peak_passes (c\<lparr>Hmax := Infinity\<rparr>) (p, qs))"
    by (simp add: a peak_passes_def split: option.splits)
  have u4: "NSIPM c = Some (lo, Finite (n_sensors (Ethr c) qs)) \<longrightarrow>
      (peak_passes c (p, qs) \<longleftrightarrow> peak_passes (c\<lparr>NSIPM := Some (lo, Infinity)\<rparr>) (p, qs))"
    by (simp add: a peak_passes_def split: option.splits)
  have r1: "\<forall>eps>0. Emax c = Finite (energy (Ethr c) p - eps) \<longrightarrow> \<not> peak_passes c (p, qs)"
    by (simp add: a peak_passes_def split: option.splits)
  have r2: "\<forall>eps>0. Lmax c = Finite (width p - eps) \<longrightarrow> \<not> peak_passes c (p, qs)"
    by (simp add: a peak_passes_def split: option.splits)
  have r3: "\<forall>eps>0. Hmax c = Finite (height p - eps) \<longrightarrow> \<not> peak_passes c (p, qs)"
    by (simp add: a peak_passes_def split: option.splits)
  have r4: "\<forall>k>0. NSIPM c = Some (lo, Finite (n_sensors (Ethr c) qs - k)) \<longrightarrow>
      \<not> peak_passes c (p, qs)"
    by (simp add: a peak_passes_def split: option.splits)
  have l1: "energy (Ethr c) p < Emin c \<or> width p < Lmin c \<or> height p < Hmin c \<longrightarrow>
      \<not> peak_passes c (p, qs)"
    by (auto simp: peak_passes_def split: option.splits)
  have l2: "\<forall>hi. NSIPM c = Some (lo, hi) \<and> n_sensors (Ethr c) qs < lo \<longrightarrow> \<not> peak_passes c (p, qs)"
    by (auto simp: peak_passes_def split: option.splits)
  note f = filter_peaks_passing[of pm c]
  show ?thesis
    using a b u1 u2 u3 u4 r1 r2 r3 r4 l1 l2 f by (intro conjI) assumption+
qed

theorem peak_bounds_inclusive_witness:
  "energy 0 (snd (hd example_S2)) = 50 \<and>
   Emax (S2_criteria_of (S2_defaults\<lparr>S2_Emax := Finite 50\<rparr>)) = Finite 50 \<and>
   peak_passes (S2_criteria_of (S2_defaults\<lparr>S2_Emax := Finite 50\<rparr>))
     (snd (hd example_S2), snd (hd example_Si)) \<and>
   (0::real) < 1 \<and>
   Emax (S2_criteria_of (S2_defaults\<lparr>S2_Emax := Finite 49\<rparr>)) = Finite (50 - 1) \<and>
   \<not> peak_passes (S2_criteria_of (S2_defaults\<lparr>S2_Emax := Finite 49\<rparr>))
     (snd (hd example_S2), snd (hd example_Si))"
proof -
  let ?p = "snd (hd example_S2)" and ?q = "snd (hd example_Si)"
  let ?c = "S2_criteria_of (S2_defaults\<lparr>S2_Emax := Finite 50\<rparr>)"
  let ?d = "S2_criteria_of (S2_defaults\<lparr>S2_Emax := Finite 49\<rparr>)"
  have e: "energy 0 ?p = 50" by (simp add: energy_def example_S2_def)
  have thr: "Ethr ?c = 0" "Ethr ?d = 0" by (simp_all add: S2_criteria_of_def S2_defaults_def)
  have m: "Emax ?c = Finite 50" "Emax ?d = Finite (50 - 1)"
    by (simp_all add: S2_criteria_of_def S2_defaults_def)
  have inf: "peak_passes (?c\<lparr>Emax := Infinity\<rparr>) (?p, ?q)"
    by (simp add: peak_passes_def S2_criteria_of_def S2_defaults_def energy_def width_def
        height_def n_sensors_def example_S2_def example_Si_def)
  note t = peak_bounds_inclusive[where p = ?p and qs = ?q]
  note u = t[where c = ?c, THEN conjunct2, THEN conjunct2, THEN conjunct2, THEN conjunct1]
  from u e thr(1) m(1) inf have a: "peak_passes ?c (?p, ?q)" by simp
  note r = t[where c = ?d, THEN conjunct2, THEN conjunct2, THEN conjunct2, THEN conjunct2,
      THEN conjunct2, THEN conjunct2, THEN conjunct2, THEN conjunct1, rule_format, of 1]
  from r e thr(2) m(2) have b: "\<not> peak_passes ?d (?p, ?q)" by simp
  from e m a b show ?thesis by simp
qed

subsection \<open>Drift values (C3)\<close>

lemma select_event_Some:
  assumes "S12SelectorCity_select_event dv c1 c2 n t S1 S2 Si = Some acc"
  shows "\<exists>s1. fst (filter_peaks (map (\<lambda>(i, p). (i, p, [])) S1) c1) \<and>
            snd (filter_peaks (map (\<lambda>(i, p). (i, p, [])) S1) c1) = [s1] \<and>
            fst (filter_peaks (map (\<lambda>(i, p). (i, p, dict_get (map_of Si) i)) S2) c2) \<and>
            snd (filter_peaks (map (\<lambda>(i, p). (i, p, dict_get (map_of Si) i)) S2) c2) \<noteq> [] \<and>
            acc = \<lparr>event = n, timestamp = t, S1_id = fst s1,
                   S2_ids = map fst (take (nat (Nmax c2)) (sort_key fst
                     (snd (filter_peaks (map (\<lambda>(i, p). (i, p, dict_get (map_of Si) i)) S2) c2)))),
                   drifts = map (\<lambda>s2. (start_time (fst (snd s2)) - time (fst (snd s1))) * dv)
                     (take (nat (Nmax c2)) (sort_key fst
                     (snd (filter_peaks (map (\<lambda>(i, p). (i, p, dict_get (map_of Si) i)) S2) c2))))\<rparr>"
proof -
  let ?f1 = "filter_peaks (map (\<lambda>(i, p). (i, p, [])) S1) c1"
  let ?f2 = "filter_peaks (map (\<lambda>(i, p). (i, p, dict_get (map_of Si) i)) S2) c2"
  from assms have ok: "fst ?f1" "fst ?f2"
    by (simp_all add: S12SelectorCity_select_event_def Let_def split: if_splits)
  with assms have
    "(case reduce (snd ?f1) (snd ?f2) Si dv (Nmax c2) of
        None \<Rightarrow> None
      | Some (s1_id, s2_ids, ds) \<Rightarrow>
          Some \<lparr>event = n, timestamp = t, S1_id = s1_id, S2_ids = s2_ids, drifts = ds\<rparr>)
     = Some acc"
    by (simp add: S12SelectorCity_select_event_def Let_def)
  then obtain a b d where red: "reduce (snd ?f1) (snd ?f2) Si dv (Nmax c2) = Some (a, b, d)"
    and acc: "acc = \<lparr>event = n, timestamp = t, S1_id = a, S2_ids = b, drifts = d\<rparr>"
    by (auto split: option.splits)
  from red obtain s1 where s: "snd ?f1 = [s1]"
    by (cases "snd ?f1" rule: remdups_adj.cases) (simp_all add: reduce_def)
  from red s have ne: "snd ?f2 \<noteq> []"
    by (auto simp: reduce_def)
  from red s ne have abd: "a = fst s1"
    "b = map fst (take (nat (Nmax c2)) (sort_key fst (snd ?f2)))"
    "d = map (\<lambda>s2. (start_time (fst (snd s2)) - time (fst (snd s1))) * dv)
           (take (nat (Nmax c2)) (sort_key fst (snd ?f2)))"
    by (simp_all add: reduce_def Let_def)
  from ok s ne acc abd show ?thesis by blast
qed

lemma filter_peaks_subset: "set (snd (filter_peaks pm c)) \<subseteq> set pm"
  by (auto simp: filter_peaks_def)

lemma filter_peaks_nonempty_cap:
  assumes "fst (filter_peaks pm c)" "snd (filter_peaks pm c) \<noteq> []"
  shows "1 \<le> Nmax c"
proof -
  from assms(2) have "pm \<noteq> []" by (auto simp: filter_peaks_def split: if_splits)
  then have "1 \<le> int (length pm)" by (cases pm) simp_all
  moreover from assms(1) have "int (length pm) \<le> Nmax c"
    by (auto simp: filter_peaks_def split: if_splits)
  ultimately show ?thesis by linarith
qed

text \<open>
  Claim C3. An accepted event carries the event number and timestamp it was selected
  for; its S1 id is the id of the single peak of the raw S1 map; it keeps at least one S2
  peak and carries one drift value per kept S2 id, in the same order; and each drift
  value is \<open>(S2_peak.start_time - S1_peak.time) * drift_v\<close> for an S2 peak stored under
  that id in the raw S2 map and the chosen S1 peak.
\<close>

theorem drift_per_kept_S2:
  "select_event (Dorothea rn fi fo c np dv s1 s2) evt_number evt_time S1 S2 Si = Some acc \<longrightarrow>
   event acc = evt_number \<and> timestamp acc = evt_time \<and>
   (\<exists>s1_peak. S1 = [(S1_id acc, s1_peak)] \<and>
      S2_ids acc \<noteq> [] \<and>
      length (drifts acc) = length (S2_ids acc) \<and>
      (\<forall>k<length (S2_ids acc).
         \<exists>s2_peak. (S2_ids acc ! k, s2_peak) \<in> set S2 \<and>
           drifts acc ! k = (start_time s2_peak - time s1_peak) * dv))"
proof
  let ?s1d = "map (\<lambda>(i, p). (i, p, [])) S1"
  let ?s2d = "map (\<lambda>(i, p). (i, p, dict_get (map_of Si) i)) S2"
  let ?c1 = "S1_criteria_of s1" and ?c2 = "S2_criteria_of s2"
  let ?kept = "take (nat (Nmax ?c2)) (sort_key fst (snd (filter_peaks ?s2d ?c2)))"
  assume "select_event (Dorothea rn fi fo c np dv s1 s2) evt_number evt_time S1 S2 Si = Some acc"
  then have "S12SelectorCity_select_event dv ?c1 ?c2 evt_number evt_time S1 S2 Si = Some acc"
    by (simp add: Dorothea_def)
  from select_event_Some[OF this]
  obtain e1 where m1: "fst (filter_peaks ?s1d ?c1)" and p1: "snd (filter_peaks ?s1d ?c1) = [e1]"
    and m2: "fst (filter_peaks ?s2d ?c2)" and p2: "snd (filter_peaks ?s2d ?c2) \<noteq> []"
    and acc: "acc = \<lparr>event = evt_number, timestamp = evt_time, S1_id = fst e1,
                   S2_ids = map fst ?kept,
                   drifts = map (\<lambda>s2. (start_time (fst (snd s2)) - time (fst (snd e1))) * dv) ?kept\<rparr>"
    by blast
  from m1 have "length S1 = 1" by (simp add: filter_peaks_S1_multiplicity)
  then obtain i p where S1: "S1 = [(i, p)]"
    by (cases S1) auto
  from filter_peaks_subset[of ?s1d ?c1] p1 S1 have e1: "e1 = (i, p, [])" by auto
  have cap: "1 \<le> Nmax ?c2" using filter_peaks_nonempty_cap[OF m2 p2] .
  have kne: "?kept \<noteq> []"
  proof -
    from p2 have "sort_key fst (snd (filter_peaks ?s2d ?c2)) \<noteq> []"
      by (auto dest: arg_cong[where f = length])
    moreover from cap have "nat (Nmax ?c2) \<noteq> 0" by simp
    ultimately show ?thesis by (simp add: take_eq_Nil)
  qed
  have each: "\<exists>s2_peak. (map fst ?kept ! k, s2_peak) \<in> set S2 \<and>
      map (\<lambda>s2. (start_time (fst (snd s2)) - time (fst (snd e1))) * dv) ?kept ! k
        = (start_time s2_peak - time p) * dv" if k: "k < length ?kept" for k
  proof -
    from k have "?kept ! k \<in> set ?kept" by (rule nth_mem)
    then have "?kept ! k \<in> set (sort_key fst (snd (filter_peaks ?s2d ?c2)))"
      by (rule in_set_takeD)
    then have "?kept ! k \<in> set ?s2d"
      using filter_peaks_subset[of ?s2d ?c2] by auto
    then obtain j q where jq: "(j, q) \<in> set S2" "?kept ! k = (j, q, dict_get (map_of Si) j)"
      by auto
    from k jq e1 show ?thesis by (auto simp: nth_map)
  qed
  have ids: "S2_ids acc = map fst ?kept"
    and ds: "drifts acc = map (\<lambda>s2. (start_time (fst (snd s2)) - time (fst (snd e1))) * dv) ?kept"
    and i1: "S1_id acc = i" and ev: "event acc = evt_number" "timestamp acc = evt_time"
    by (simp_all add: acc e1)
  show "event acc = evt_number \<and> timestamp acc = evt_time \<and>
   (\<exists>s1_peak. S1 = [(S1_id acc, s1_peak)] \<and>
      S2_ids acc \<noteq> [] \<and>
      length (drifts acc) = length (S2_ids acc) \<and>
      (\<forall>k<length (S2_ids acc).
         \<exists>s2_peak. (S2_ids acc ! k, s2_peak) \<in> set S2 \<and>
           drifts acc ! k = (start_time s2_peak - time s1_peak) * dv))"
  proof (intro conjI)
    show "event acc = evt_number" "timestamp acc = evt_time" by (fact ev)+
    show "\<exists>s1_peak. S1 = [(S1_id acc, s1_peak)] \<and>
      S2_ids acc \<noteq> [] \<and>
      length (drifts acc) = length (S2_ids acc) \<and>
      (\<forall>k<length (S2_ids acc).
         \<exists>s2_peak. (S2_ids acc ! k, s2_peak) \<in> set S2 \<and>
           drifts acc ! k = (start_time s2_peak - time s1_peak) * dv)"
    proof (rule exI[of _ p], intro conjI allI impI)
      show "S1 = [(S1_id acc, p)]" by (simp only: S1 i1)
      show "S2_ids acc \<noteq> []" using kne by (simp add: ids)
      show "length (drifts acc) = length (S2_ids acc)" by (simp only: ids ds length_map)
    next
      fix k assume "k < length (S2_ids acc)"
      then have "k < length ?kept" by (simp only: ids length_map)
      from each[OF this] show "\<exists>s2_peak. (S2_ids acc ! k, s2_peak) \<in> set S2 \<and>
             drifts acc ! k = (start_time s2_peak - time p) * dv"
        by (simp only: ids ds)
    qed
  qed
qed

theorem drift_per_kept_S2_witness:
  "select_event (example_city [] 2) 1 1000 example_S1 example_S2 example_Si =
     Some \<lparr>event = 1, timestamp = 1000, S1_id = 0, S2_ids = [0, 1], drifts = [400, 600]\<rparr> \<and>
   length (drifts \<lparr>event = 1, timestamp = 1000, S1_id = 0, S2_ids = [0, 1],
                   drifts = [400, 600]\<rparr>) = 2 \<and>
   (400::real) = (start_time (snd (example_S2 ! 0)) - time (snd (example_S1 ! 0))) * 1 \<and>
   (600::real) = (start_time (snd (example_S2 ! 1)) - time (snd (example_S1 ! 0))) * 1"
proof -
  let ?acc = "\<lparr>event = 1, timestamp = 1000, S1_id = 0, S2_ids = [0, 1], drifts = [400, 600]\<rparr>"
  have ev: "select_event (example_city [] 2) 1 1000 example_S1 example_S2 example_Si = Some ?acc"
    by (simp add: ex_defs)
  from drift_per_kept_S2[of 0 "[]" "''out.h5''" "''ZLIB4''" 10000 1 S1_defaults
      "S2_defaults\<lparr>S2_Nmax := 2\<rparr>" 1 1000 example_S1 example_S2 example_Si ?acc]
    ev[unfolded example_city_def]
  have "\<exists>s1_peak. example_S1 = [(S1_id ?acc, s1_peak)] \<and>
      S2_ids ?acc \<noteq> [] \<and>
      length (drifts ?acc) = length (S2_ids ?acc) \<and>
      (\<forall>k<length (S2_ids ?acc).
         \<exists>s2_peak. (S2_ids ?acc ! k, s2_peak) \<in> set example_S2 \<and>
           drifts ?acc ! k = (start_time s2_peak - time s1_peak) * 1)"
    by blast
  then have "length (drifts ?acc) = length (S2_ids ?acc)" by blast
  then have l: "length (drifts ?acc) = 2" by simp
  have d: "(400::real) = (start_time (snd (example_S2 ! 0)) - time (snd (example_S1 ! 0))) * 1"
    "(600::real) = (start_time (snd (example_S2 ! 1)) - time (snd (example_S1 ! 0))) * 1"
    by (simp_all add: example_S1_def example_S2_def)
  from ev l d show ?thesis by blast
qed

end
